theory Spec2Isabelle
  imports Main "HOL-Library.Word"
begin

unbundle bit_operations_syntax

section \<open>Common types\<close>

type_synonym uint8 = "8 word"
type_synonym uint16 = "16 word"

text \<open>
  Go raises a run-time panic when a slice is indexed out of range. The panic is a value
  of the model: \<open>index xs i\<close> is the Go expression \<open>xs[i]\<close>.
\<close>

datatype cart_error =
    IndexOutOfRange
  | CartridgeError string
  | MemoryBusError uint16

definition index :: "'a list \<Rightarrow> nat \<Rightarrow> cart_error + 'a" where
  "index xs i = (if i < length xs then Inr (xs ! i) else Inl IndexOutOfRange)"

section \<open>Parker Bros (E0) mapper: hardware/memory/cartridge/mapper\_parkerbros.go\<close>

text \<open>
  The struct \<open>parkerBros\<close>: eight banks of 1024 bytes, and four segments each holding
  the number of the bank it points to. The identification strings play no part in
  reading and bank switching and are left out.
\<close>

record parkerBros =
  bankSize :: nat
  banks :: "uint8 list list"
  segment :: "nat list"

definition NumBanks :: nat where
  "NumBanks = 8"

definition Initialise :: "parkerBros \<Rightarrow> parkerBros" where
  "Initialise cart = cart\<lparr>segment :=
     (segment cart)[0 := NumBanks - 4, 1 := NumBanks - 3, 2 := NumBanks - 2, 3 := NumBanks - 1]\<rparr>"

text \<open>
  \<open>newParkerBros\<close>: the image must hold exactly \<open>bankSize * NumBanks\<close> bytes; bank
  \<open>k\<close> is the slice \<open>data[k*bankSize : (k+1)*bankSize]\<close>.
\<close>

definition newParkerBros :: "uint8 list \<Rightarrow> cart_error + parkerBros" where
  "newParkerBros data =
     (if length data \<noteq> 1024 * NumBanks
      then Inl (CartridgeError ''E0: wrong number of bytes in the cartridge data'')
      else Inr (Initialise
             \<lparr>bankSize = 1024,
              banks = map (\<lambda>k. take 1024 (drop (k * 1024) data)) [0..<NumBanks],
              segment = [0, 0, 0, 0]\<rparr>))"

text \<open>
  \<open>hotspot\<close>: bank switch on hotspot access. The result is the returned flag and the
  cartridge after the call. The switch statement is kept case by case.
\<close>

definition hotspot :: "parkerBros \<Rightarrow> uint16 \<Rightarrow> bool \<Rightarrow> bool \<times> parkerBros" where
  "hotspot cart addr passive =
     (if addr \<ge> 0xfe0 \<and> addr \<le> 0xff7 then
        (if passive then (True, cart)
         else (True,
           if addr = 0x0fe0 then cart\<lparr>segment := (segment cart)[0 := 0]\<rparr>
           else if addr = 0x0fe1 then cart\<lparr>segment := (segment cart)[0 := 1]\<rparr>
           else if addr = 0x0fe2 then cart\<lparr>segment := (segment cart)[0 := 2]\<rparr>
           else if addr = 0x0fe3 then cart\<lparr>segment := (segment cart)[0 := 3]\<rparr>
           else if addr = 0x0fe4 then cart\<lparr>segment := (segment cart)[0 := 4]\<rparr>
           else if addr = 0x0fe5 then cart\<lparr>segment := (segment cart)[0 := 5]\<rparr>
           else if addr = 0x0fe6 then cart\<lparr>segment := (segment cart)[0 := 6]\<rparr>
           else if addr = 0x0fe7 then cart\<lparr>segment := (segment cart)[0 := 7]\<rparr>
           else if addr = 0x0fe8 then cart\<lparr>segment := (segment cart)[1 := 0]\<rparr>
           else if addr = 0x0fe9 then cart\<lparr>segment := (segment cart)[1 := 1]\<rparr>
           else if addr = 0x0fea then cart\<lparr>segment := (segment cart)[1 := 2]\<rparr>
           else if addr = 0x0feb then cart\<lparr>segment := (segment cart)[1 := 3]\<rparr>
           else if addr = 0x0fec then cart\<lparr>segment := (segment cart)[1 := 4]\<rparr>
           else if addr = 0x0fed then cart\<lparr>segment := (segment cart)[1 := 5]\<rparr>
           else if addr = 0x0fee then cart\<lparr>segment := (segment cart)[1 := 6]\<rparr>
           else if addr = 0x0fef then cart\<lparr>segment := (segment cart)[1 := 7]\<rparr>
           else if addr = 0x0ff0 then cart\<lparr>segment := (segment cart)[2 := 0]\<rparr>
           else if addr = 0x0ff1 then cart\<lparr>segment := (segment cart)[2 := 1]\<rparr>
           else if addr = 0x0ff2 then cart\<lparr>segment := (segment cart)[2 := 2]\<rparr>
           else if addr = 0x0ff3 then cart\<lparr>segment := (segment cart)[2 := 3]\<rparr>
           else if addr = 0x0ff4 then cart\<lparr>segment := (segment cart)[2 := 4]\<rparr>
           else if addr = 0x0ff5 then cart\<lparr>segment := (segment cart)[2 := 5]\<rparr>
           else if addr = 0x0ff6 then cart\<lparr>segment := (segment cart)[2 := 6]\<rparr>
           else if addr = 0x0ff7 then cart\<lparr>segment := (segment cart)[2 := 7]\<rparr>
           else cart))
      else (False, cart))"

text \<open>
  \<open>bankByte cart seg addr\<close> is the Go expression
  \<open>cart.banks[cart.segment[seg]][addr&0x03ff]\<close>, with the three index operations
  checked in the order Go evaluates them.
\<close>

definition bankByte :: "parkerBros \<Rightarrow> nat \<Rightarrow> uint16 \<Rightarrow> cart_error + uint8" where
  "bankByte cart seg addr =
     (case index (segment cart) seg of
        Inl e \<Rightarrow> Inl e
      | Inr b \<Rightarrow>
         (case index (banks cart) b of
            Inl e \<Rightarrow> Inl e
          | Inr bank \<Rightarrow> index bank (unat (addr AND 0x03ff))))"

text \<open>
  \<open>Read\<close>: a hotspot access returns 0; any other address returns the byte of the bank
  its segment points to. The result carries the cartridge after the call, because the
  hotspot test may have switched a bank.
\<close>

definition Read :: "parkerBros \<Rightarrow> uint16 \<Rightarrow> bool \<Rightarrow> cart_error + (uint8 \<times> parkerBros)" where
  "Read cart addr passive =
     (case hotspot cart addr passive of
        (True, cart') \<Rightarrow> Inr (0, cart')
      | (False, cart') \<Rightarrow>
          (if addr \<ge> 0x0000 \<and> addr \<le> 0x03ff then
             (case bankByte cart' 0 addr of Inl e \<Rightarrow> Inl e | Inr d \<Rightarrow> Inr (d, cart'))
           else if addr \<ge> 0x0400 \<and> addr \<le> 0x07ff then
             (case bankByte cart' 1 addr of Inl e \<Rightarrow> Inl e | Inr d \<Rightarrow> Inr (d, cart'))
           else if addr \<ge> 0x0800 \<and> addr \<le> 0x0bff then
             (case bankByte cart' 2 addr of Inl e \<Rightarrow> Inl e | Inr d \<Rightarrow> Inr (d, cart'))
           else if addr \<ge> 0x0c00 \<and> addr \<le> 0x0fff then
             (case bankByte cart' 3 addr of Inl e \<Rightarrow> Inl e | Inr d \<Rightarrow> Inr (d, cart'))
           else Inr (0, cart')))"

text \<open>
  \<open>pokeByte cart seg addr data\<close> is the Go assignment
  \<open>cart.banks[cart.segment[seg]][addr&0x3dd] = data\<close>.
\<close>

definition pokeByte :: "parkerBros \<Rightarrow> nat \<Rightarrow> uint16 \<Rightarrow> uint8 \<Rightarrow> cart_error + parkerBros" where
  "pokeByte cart seg addr data =
     (case index (segment cart) seg of
        Inl e \<Rightarrow> Inl e
      | Inr b \<Rightarrow>
         (case index (banks cart) b of
            Inl e \<Rightarrow> Inl e
          | Inr bank \<Rightarrow>
              (if unat (addr AND 0x3dd) < length bank
               then Inr (cart\<lparr>banks := (banks cart)[b := bank[unat (addr AND 0x3dd) := data]]\<rparr>)
               else Inl IndexOutOfRange)))"

text \<open>
  \<open>Write\<close>: a hotspot access returns no error; any other write returns a memory bus
  error, after the poke if one was asked for. The result is the error (if any) and the
  cartridge after the call; a panic leaves no cartridge.
\<close>

definition Write ::
  "parkerBros \<Rightarrow> uint16 \<Rightarrow> uint8 \<Rightarrow> bool \<Rightarrow> bool \<Rightarrow> cart_error + (cart_error option \<times> parkerBros)" where
  "Write cart addr data passive poke =
     (case hotspot cart addr passive of
        (True, cart') \<Rightarrow> Inr (None, cart')
      | (False, cart') \<Rightarrow>
          (if poke then
             (if addr \<ge> 0x0000 \<and> addr \<le> 0x03ff then
                (case pokeByte cart' 0 addr data of Inl e \<Rightarrow> Inl e
                 | Inr c \<Rightarrow> Inr (Some (MemoryBusError addr), c))
              else if addr \<ge> 0x0400 \<and> addr \<le> 0x07ff then
                (case pokeByte cart' 1 addr data of Inl e \<Rightarrow> Inl e
                 | Inr c \<Rightarrow> Inr (Some (MemoryBusError addr), c))
              else if addr \<ge> 0x0800 \<and> addr \<le> 0x0bff then
                (case pokeByte cart' 2 addr data of Inl e \<Rightarrow> Inl e
                 | Inr c \<Rightarrow> Inr (Some (MemoryBusError addr), c))
              else if addr \<ge> 0x0c00 \<and> addr \<le> 0x0fff then
                (case pokeByte cart' 3 addr data of Inl e \<Rightarrow> Inl e
                 | Inr c \<Rightarrow> Inr (Some (MemoryBusError addr), c))
              else Inr (Some (MemoryBusError addr), cart'))
           else Inr (Some (MemoryBusError addr), cart')))"

text \<open>
  A cartridge as \<open>newParkerBros\<close> builds it and as the operations keep it: eight banks
  of 1024 bytes, four segments, each pointing to one of the eight banks.
\<close>

definition wellformed :: "parkerBros \<Rightarrow> bool" where
  "wellformed cart \<longleftrightarrow>
     length (banks cart) = NumBanks \<and>
     list_all (\<lambda>bank. length bank = 1024) (banks cart) \<and>
     length (segment cart) = 4 \<and>
     list_all (\<lambda>b. b < NumBanks) (segment cart)"

text \<open>An active or passive access, as the bus makes it: a read or a write.\<close>

datatype access = ReadAccess | WriteAccess uint8 bool

definition access_cart :: "parkerBros \<Rightarrow> access \<Rightarrow> uint16 \<Rightarrow> bool \<Rightarrow> cart_error + parkerBros" where
  "access_cart cart a addr passive =
     (case a of
        ReadAccess \<Rightarrow> map_sum id snd (Read cart addr passive)
      | WriteAccess data poke \<Rightarrow> map_sum id snd (Write cart addr data passive poke))"

text \<open>
  A sequence of bus accesses, each with its address and its passive flag, applied in
  order; a panic ends the sequence.
\<close>

fun access_all :: "parkerBros \<Rightarrow> (access \<times> uint16 \<times> bool) list \<Rightarrow> cart_error + parkerBros" where
  "access_all cart [] = Inr cart"
| "access_all cart ((a, addr, passive) # ops) =
     (case access_cart cart a addr passive of Inl e \<Rightarrow> Inl e | Inr cart' \<Rightarrow> access_all cart' ops)"

text \<open>The accesses that select a bank for segment 0: active, at 0x0FE0 to 0x0FE7.\<close>

definition switches_segment0 :: "access \<times> uint16 \<times> bool \<Rightarrow> bool" where
  "switches_segment0 op =
     (case op of (a, addr, passive) \<Rightarrow> \<not> passive \<and> 0xfe0 \<le> addr \<and> addr \<le> 0xfe7)"

section \<open>Cartridge fingerprinting: package cartridge (src/hardware/memory/vcs/chip\_riot.go)\<close>

text \<open>
  Go evaluates \<open>p && q\<close> and \<open>p || q\<close> from left to right and skips \<open>q\<close> when
  \<open>p\<close> decides the result; an index panic in \<open>p\<close> ends the evaluation, one in a
  skipped \<open>q\<close> never happens. \<open>byteIs b i v\<close> is the Go test \<open>b[i] == v\<close>.
\<close>

definition andalso :: "cart_error + bool \<Rightarrow> cart_error + bool \<Rightarrow> cart_error + bool" where
  "andalso p q = (case p of Inl e \<Rightarrow> Inl e | Inr False \<Rightarrow> Inr False | Inr True \<Rightarrow> q)"

definition orelse :: "cart_error + bool \<Rightarrow> cart_error + bool \<Rightarrow> cart_error + bool" where
  "orelse p q = (case p of Inl e \<Rightarrow> Inl e | Inr True \<Rightarrow> Inr True | Inr False \<Rightarrow> q)"

definition byteIs :: "uint8 list \<Rightarrow> nat \<Rightarrow> uint8 \<Rightarrow> cart_error + bool" where
  "byteIs b i v = (case index b i of Inl e \<Rightarrow> Inl e | Inr x \<Rightarrow> Inr (x = v))"

text \<open>
  \<open>fingerprint3ePlus\<close>: the loop \<open>for i := range b\<close> with its two thresholds. Both
  tests read \<open>b[i+1]\<close> whenever \<open>b[i]\<close> is 0x85, with no bound on \<open>i+1\<close>.
\<close>

function fingerprint3ePlus_loop :: "uint8 list \<Rightarrow> nat \<Rightarrow> int \<Rightarrow> int \<Rightarrow> cart_error + bool" where
  "fingerprint3ePlus_loop b i threshold3e threshold3f =
     (if i < length b then
        (case andalso (byteIs b i 0x85) (byteIs b (i + 1) 0x3e) of
           Inl e \<Rightarrow> Inl e
         | Inr m3e \<Rightarrow>
            (case andalso (byteIs b i 0x85) (byteIs b (i + 1) 0x3f) of
               Inl e \<Rightarrow> Inl e
             | Inr m3f \<Rightarrow>
                (if (if m3e then threshold3e - 1 else threshold3e) \<le> 0 \<and>
                    (if m3f then threshold3f - 1 else threshold3f) \<le> 0
                 then Inr True
                 else fingerprint3ePlus_loop b (i + 1)
                        (if m3e then threshold3e - 1 else threshold3e)
                        (if m3f then threshold3f - 1 else threshold3f))))
      else Inr False)"
  by pat_completeness auto

termination fingerprint3ePlus_loop
  by (relation "measure (\<lambda>(b, i, _, _). length b - i)") auto

declare fingerprint3ePlus_loop.simps [simp del]

definition fingerprint3ePlus :: "uint8 list \<Rightarrow> cart_error + bool" where
  "fingerprint3ePlus b = fingerprint3ePlus_loop b 0 5 5"

text \<open>
  \<open>fingerprintMnetwork\<close>: \<open>for i := 0; i < len(b)-3; i++\<close>. The bound is computed on
  Go's signed \<open>int\<close>, so it is negative for fewer than three bytes.
\<close>

function fingerprintMnetwork_loop :: "uint8 list \<Rightarrow> nat \<Rightarrow> int \<Rightarrow> cart_error + bool" where
  "fingerprintMnetwork_loop b i threshold =
     (if int i < int (length b) - 3 then
        (case andalso (byteIs b i 0x7e) (andalso (byteIs b (i + 1) 0x66)
                (andalso (byteIs b (i + 2) 0x66) (byteIs b (i + 3) 0x66))) of
           Inl e \<Rightarrow> Inl e
         | Inr m \<Rightarrow>
            (if (if m then threshold - 1 else threshold) = 0 then Inr True
             else fingerprintMnetwork_loop b (i + 1) (if m then threshold - 1 else threshold)))
      else Inr False)"
  by pat_completeness auto

termination fingerprintMnetwork_loop
  by (relation "measure (\<lambda>(b, i, _). length b - i)") auto

declare fingerprintMnetwork_loop.simps [simp del]

definition fingerprintMnetwork :: "uint8 list \<Rightarrow> cart_error + bool" where
  "fingerprintMnetwork b = fingerprintMnetwork_loop b 0 2"

text \<open>\<open>fingerprintParkerBros\<close>: \<open>for i := 0; i <= len(b)-3; i++\<close>, eight patterns.\<close>

definition threeBytes :: "uint8 list \<Rightarrow> nat \<Rightarrow> uint8 \<Rightarrow> uint8 \<Rightarrow> uint8 \<Rightarrow> cart_error + bool" where
  "threeBytes b i x y z = andalso (byteIs b i x) (andalso (byteIs b (i + 1) y) (byteIs b (i + 2) z))"

function fingerprintParkerBros_loop :: "uint8 list \<Rightarrow> nat \<Rightarrow> cart_error + bool" where
  "fingerprintParkerBros_loop b i =
     (if int i \<le> int (length b) - 3 then
        (case orelse (threeBytes b i 0x8d 0xe0 0x1f)
               (orelse (threeBytes b i 0x8d 0xe0 0x5f)
               (orelse (threeBytes b i 0x8d 0xe9 0xff)
               (orelse (threeBytes b i 0x0c 0xe0 0x1f)
               (orelse (threeBytes b i 0xad 0xe0 0x1f)
               (orelse (threeBytes b i 0xad 0xe9 0xff)
               (orelse (threeBytes b i 0xad 0xed 0xff)
                       (threeBytes b i 0xad 0xf3 0xbf))))))) of
           Inl e \<Rightarrow> Inl e
         | Inr True \<Rightarrow> Inr True
         | Inr False \<Rightarrow> fingerprintParkerBros_loop b (i + 1))
      else Inr False)"
  by pat_completeness auto

termination fingerprintParkerBros_loop
  by (relation "measure (\<lambda>(b, i). length b - i)") auto

declare fingerprintParkerBros_loop.simps [simp del]

definition fingerprintParkerBros :: "uint8 list \<Rightarrow> cart_error + bool" where
  "fingerprintParkerBros b = fingerprintParkerBros_loop b 0"

definition fingerprintHarmony :: "uint8 list \<Rightarrow> cart_error + bool" where
  "fingerprintHarmony b =
     andalso (byteIs b 0x20 0x1e) (andalso (byteIs b 0x21 0xab)
       (andalso (byteIs b 0x22 0xad) (byteIs b 0x23 0x10)))"

definition fingerprintSuperchargerFastLoad :: "uint8 list \<Rightarrow> bool" where
  "fingerprintSuperchargerFastLoad b =
     (let l = length b in l = 8448 \<or> l = 25344 \<or> l = 33792)"

text \<open>\<open>fingerprintTigervision\<close>: \<open>for i := 0; i < len(b)-1; i++\<close>.\<close>

function fingerprintTigervision_loop :: "uint8 list \<Rightarrow> nat \<Rightarrow> int \<Rightarrow> cart_error + bool" where
  "fingerprintTigervision_loop b i threshold =
     (if int i < int (length b) - 1 then
        (case andalso (byteIs b i 0x85) (byteIs b (i + 1) 0x3f) of
           Inl e \<Rightarrow> Inl e
         | Inr m \<Rightarrow>
            (if (if m then threshold - 1 else threshold) = 0 then Inr True
             else fingerprintTigervision_loop b (i + 1) (if m then threshold - 1 else threshold)))
      else Inr False)"
  by pat_completeness auto

termination fingerprintTigervision_loop
  by (relation "measure (\<lambda>(b, i, _). length b - i)") auto

declare fingerprintTigervision_loop.simps [simp del]

definition fingerprintTigervision :: "uint8 list \<Rightarrow> cart_error + bool" where
  "fingerprintTigervision b = fingerprintTigervision_loop b 0 5"

text \<open>
  The mapper constructors that fingerprinting chooses between. The constructors
  themselves (other than \<open>newParkerBros\<close>) are outside this development: the model of
  \<open>Cartridge.fingerprint\<close> returns the constructor the source goes on to call.
\<close>

datatype mapper =
    NewDPCplus | NewSupercharger | New3ePlus | NewAtari2k | NewAtari4k
  | NewTigervision | NewParkerBros | NewAtari8k | NewDPC | NewCBS
  | NewMnetwork | NewAtari16k | NewAtari32k

definition fingerprint8k :: "uint8 list \<Rightarrow> cart_error + mapper" where
  "fingerprint8k data =
     (case fingerprintTigervision data of
        Inl e \<Rightarrow> Inl e
      | Inr True \<Rightarrow> Inr NewTigervision
      | Inr False \<Rightarrow>
         (case fingerprintParkerBros data of
            Inl e \<Rightarrow> Inl e
          | Inr True \<Rightarrow> Inr NewParkerBros
          | Inr False \<Rightarrow> Inr NewAtari8k))"

definition fingerprint16k :: "uint8 list \<Rightarrow> cart_error + mapper" where
  "fingerprint16k data =
     (case fingerprintTigervision data of
        Inl e \<Rightarrow> Inl e
      | Inr True \<Rightarrow> Inr NewTigervision
      | Inr False \<Rightarrow>
         (case fingerprintMnetwork data of
            Inl e \<Rightarrow> Inl e
          | Inr True \<Rightarrow> Inr NewMnetwork
          | Inr False \<Rightarrow> Inr NewAtari16k))"

definition fingerprint32k :: "uint8 list \<Rightarrow> cart_error + mapper" where
  "fingerprint32k data =
     (case fingerprintTigervision data of
        Inl e \<Rightarrow> Inl e
      | Inr True \<Rightarrow> Inr NewTigervision
      | Inr False \<Rightarrow> Inr NewAtari32k)"

text \<open>
  \<open>Cartridge.fingerprint\<close>: the fixed order Harmony, Supercharger, 3E+, then the
  dispatch on the length. \<open>Inl IndexOutOfRange\<close> is a panic; \<open>Inl (CartridgeError _)\<close>
  is the typed error the source returns (its message without the formatted byte count).
\<close>

definition fingerprint :: "uint8 list \<Rightarrow> cart_error + mapper" where
  "fingerprint data =
     (case fingerprintHarmony data of
        Inl e \<Rightarrow> Inl e
      | Inr True \<Rightarrow> Inr NewDPCplus
      | Inr False \<Rightarrow>
         (if fingerprintSuperchargerFastLoad data then Inr NewSupercharger
          else
            (case fingerprint3ePlus data of
               Inl e \<Rightarrow> Inl e
             | Inr True \<Rightarrow> Inr New3ePlus
             | Inr False \<Rightarrow>
                (if length data = 2048 then Inr NewAtari2k
                 else if length data = 4096 then Inr NewAtari4k
                 else if length data = 8192 then fingerprint8k data
                 else if length data = 10240 \<or> length data = 10495 then Inr NewDPC
                 else if length data = 12288 then Inr NewCBS
                 else if length data = 16384 then fingerprint16k data
                 else if length data = 32768 then fingerprint32k data
                 else if length data = 65536
                   then Inl (CartridgeError ''65536 bytes not yet supported'')
                 else Inl (CartridgeError ''unrecognised cartridge size'')))))"

text \<open>
  The number of positions at which the two bytes 0x85 0x3F (the instruction
  \<open>STA $3F\<close>) occur in an image, and likewise for 0x85 0x3E.
\<close>

definition occurrences :: "uint8 \<Rightarrow> uint8 \<Rightarrow> uint8 list \<Rightarrow> nat" where
  "occurrences x y b = length (filter (\<lambda>i. b ! i = x \<and> b ! (i + 1) = y) [0..<length b - 1])"

section \<open>Hand controller: package input (src/unnamed/part\_000)\<close>

subsection \<open>Single-precision values\<close>

text \<open>
  Go's \<open>float32\<close> is IEEE 754 binary32. Every finite binary32 value is an integer
  multiple of \<open>2^-149\<close> (the smallest subnormal) whose magnitude has at most 24
  significant bits; the model represents the finite value \<open>v\<close> by the integer
  \<open>v * 2^149\<close>. A sum or difference is computed exactly and then rounded to 24
  significant bits, to nearest with ties to even, as the hardware does. Infinities,
  NaN and the sign of zero are not represented: the model is exact for operations
  whose operands and result are finite, which covers every paddle position between 0
  and 1.
\<close>

type_synonym float32 = int

text \<open>\<open>bits n\<close> is the number of significant bits of a positive integer.\<close>

function bits :: "int \<Rightarrow> nat" where
  "bits n = (if n \<le> 0 then 0 else Suc (bits (n div 2)))"
  by pat_completeness auto

termination bits
  by (relation "measure nat") auto

declare bits.simps [simp del]

definition round24 :: "int \<Rightarrow> int" where
  "round24 n =
     (let k = bits n - 24 in
      if k = 0 then n
      else
        (let q = n div 2 ^ k; r = n mod 2 ^ k; h = 2 ^ (k - 1)
         in (if r > h \<or> (r = h \<and> odd q) then q + 1 else q) * 2 ^ k))"

definition f32_round :: "int \<Rightarrow> float32" where
  "f32_round x = (if x < 0 then - round24 (- x) else round24 x)"

definition f32_add :: "float32 \<Rightarrow> float32 \<Rightarrow> float32" where
  "f32_add a b = f32_round (a + b)"

definition f32_sub :: "float32 \<Rightarrow> float32 \<Rightarrow> float32" where
  "f32_sub a b = f32_round (a - b)"

text \<open>The constants \<open>1.0\<close> and \<open>0.5\<close> are powers of two and so exact.\<close>

definition f32_one :: float32 where
  "f32_one = 2 ^ 149"

definition f32_half :: float32 where
  "f32_half = 2 ^ 148"

text \<open>
  \<open>const paddleSensitivity = 0.01\<close> is an untyped constant; where it is added to a
  \<open>float32\<close> it is converted to the nearest binary32 value, which is
  \<open>10737418 * 2^-30\<close> (bit pattern 0x3C23D70A).
\<close>

definition paddleSensitivity :: float32 where
  "paddleSensitivity = 10737418 * 2 ^ 119"

subsection \<open>Events, registers and chip memory\<close>

datatype ControllerType = JoystickType | PaddleType | KeyboardType

text \<open>
  Modelled from the spec: the declarations of \<open>Event\<close>, \<open>EventValue\<close>, the port
  identifiers, the chip registers and \<open>InputDeviceWrite\<close> are not part of the sources
  at hand. \<open>Event\<close> has the constants that \<open>Handle\<close> names and \<open>OtherEvent\<close> for any
  other event kind (the console panel's, for one). \<open>EventValue\<close> is Go's
  \<open>interface{}\<close>: a value tagged with its dynamic type, \<open>NilValue\<close> for \<open>nil\<close>. A
  rune is an \<open>int32\<close> code point. Writes from an input device to a chip register are
  masked writes (section 4.4 of the specification): the bits selected by the mask are
  preserved and the others take the new data.
\<close>

datatype Event =
    NoEvent | Unplug | Fire | Up | Down | Left | Right
  | PaddleFire | PaddleSet | KeyboardDown | KeyboardUp | OtherEvent nat

type_synonym rune = "32 word"

datatype EventValue =
    NilValue | BoolValue bool | Float32Value float32 | RuneValue rune | OtherValue

datatype PortID = HandControllerZeroID | HandControllerOneID

datatype ChipRegister = SWCHA | INPT0 | INPT1 | INPT4 | INPT5

type_synonym ChipMemory = "ChipRegister \<Rightarrow> uint8"

definition InputDeviceWrite :: "ChipMemory \<Rightarrow> ChipRegister \<Rightarrow> uint8 \<Rightarrow> uint8 \<Rightarrow> ChipMemory" where
  "InputDeviceWrite area reg data preserveBits = area(reg := (area reg AND preserveBits) OR data)"

datatype input_error =
    BadInputEventType Event string
  | InputDeviceUnplugged PortID
  | UnknownInputEvent PortID Event
  | RecorderError

subsection \<open>The controller\<close>

record stick =
  axisReg :: ChipRegister
  stickButtonReg :: ChipRegister
  axis :: uint8
  button :: bool
  transform :: "uint8 \<Rightarrow> uint8"
  addrMask :: uint8

record paddle =
  puckReg :: ChipRegister
  paddleButtonReg :: ChipRegister
  buttonMask :: uint8
  charge :: uint8
  resistance :: float32
  ticks :: float32

record keyboard =
  keyboard_addr :: ChipRegister
  keyboard_key :: rune

text \<open>
  \<open>HandController\<close>. The pointers of the struct are followed: \<open>mem_riot\<close> and
  \<open>mem_tia\<close> are the two chip memories behind \<open>mem\<close>, \<open>latchFireButton\<close> is the control bit behind
  \<open>control\<close>, \<open>port_id\<close> and \<open>recorder\<close> are the fields of the embedded \<open>port\<close>. An
  attached recorder is a function that may refuse an event with an error.
\<close>

record HandController =
  port_id :: PortID
  recorder :: "(PortID \<Rightarrow> Event \<Rightarrow> EventValue \<Rightarrow> input_error option) option"
  mem_riot :: ChipMemory
  mem_tia :: ChipMemory
  latchFireButton :: bool
  which :: ControllerType
  stick :: stick
  paddle :: paddle
  keyboard :: keyboard
  ddr :: uint8

definition NewHandController0 :: "ChipMemory \<Rightarrow> ChipMemory \<Rightarrow> bool \<Rightarrow> HandController" where
  "NewHandController0 riotMem tiaMem latch =
     \<lparr>port_id = HandControllerZeroID, recorder = None,
      mem_riot = riotMem, mem_tia = tiaMem, latchFireButton = latch,
      which = JoystickType,
      stick = \<lparr>axisReg = SWCHA, stickButtonReg = INPT4, axis = 0xf0, button = False,
                transform = (\<lambda>n. n), addrMask = 0x0f\<rparr>,
      paddle = \<lparr>puckReg = INPT0, paddleButtonReg = SWCHA, buttonMask = 0x7f,
                 charge = 0, resistance = 0, ticks = 0\<rparr>,
      keyboard = \<lparr>keyboard_addr = INPT0, keyboard_key = 0\<rparr>,
      ddr = 0x00\<rparr>"

definition NewHandController1 :: "ChipMemory \<Rightarrow> ChipMemory \<Rightarrow> bool \<Rightarrow> HandController" where
  "NewHandController1 riotMem tiaMem latch =
     \<lparr>port_id = HandControllerOneID, recorder = None,
      mem_riot = riotMem, mem_tia = tiaMem, latchFireButton = latch,
      which = JoystickType,
      stick = \<lparr>axisReg = SWCHA, stickButtonReg = INPT5, axis = 0xf0, button = False,
                transform = (\<lambda>n. drop_bit 4 n), addrMask = 0xf0\<rparr>,
      paddle = \<lparr>puckReg = INPT1, paddleButtonReg = SWCHA, buttonMask = 0xbf,
                 charge = 0, resistance = 0, ticks = 0\<rparr>,
      keyboard = \<lparr>keyboard_addr = INPT1, keyboard_key = 0\<rparr>,
      ddr = 0x00\<rparr>"

text \<open>
  The tail of \<open>Handle\<close>, reached by every event that was processed: the event is
  handed to the recorder if there is one, and the recorder's answer is returned.
\<close>

definition record_event :: "HandController \<Rightarrow> Event \<Rightarrow> EventValue \<Rightarrow> input_error option \<times> HandController" where
  "record_event hc event v =
     (case recorder hc of
        Some rec \<Rightarrow> (rec (port_id hc) event v, hc)
      | None \<Rightarrow> (None, hc))"

text \<open>One of the four direction cases of \<open>Handle\<close>; \<open>dirBit\<close> is 0x40, 0x80, 0x10 or 0x20.\<close>

definition handle_axis :: "HandController \<Rightarrow> Event \<Rightarrow> EventValue \<Rightarrow> uint8 \<Rightarrow> input_error option \<times> HandController" where
  "handle_axis hc event v dirBit =
     (case v of
        BoolValue b \<Rightarrow>
          (let a = (if b then axis (stick hc) XOR dirBit else axis (stick hc) OR dirBit);
               hc1 = hc\<lparr>which := JoystickType, stick := (stick hc)\<lparr>axis := a\<rparr>\<rparr>;
               hc2 = hc1\<lparr>mem_riot := InputDeviceWrite (mem_riot hc1) (axisReg (stick hc1))
                                  (transform (stick hc1) (axis (stick hc1))) (addrMask (stick hc1))\<rparr>
           in record_event hc2 event v)
      | _ \<Rightarrow> (Some (BadInputEventType event ''bool''), hc))"

text \<open>
  \<open>Handle\<close>, case by case as in the source. The result is the returned error (if any)
  and the controller after the call.
\<close>

definition Handle :: "HandController \<Rightarrow> Event \<Rightarrow> EventValue \<Rightarrow> input_error option \<times> HandController" where
  "Handle hc event v =
     (case event of
        NoEvent \<Rightarrow> (None, hc)
      | Left \<Rightarrow> handle_axis hc event v 0x40
      | Right \<Rightarrow> handle_axis hc event v 0x80
      | Up \<Rightarrow> handle_axis hc event v 0x10
      | Down \<Rightarrow> handle_axis hc event v 0x20
      | Fire \<Rightarrow>
          (case v of
             BoolValue b \<Rightarrow>
               (let hc1 = hc\<lparr>which := JoystickType, stick := (stick hc)\<lparr>button := b\<rparr>\<rparr>;
                    hc2 = (if button (stick hc1)
                           then hc1\<lparr>mem_tia := InputDeviceWrite (mem_tia hc1) (stickButtonReg (stick hc1)) 0x00 0x00\<rparr>
                           else if \<not> latchFireButton hc1
                           then hc1\<lparr>mem_tia := InputDeviceWrite (mem_tia hc1) (stickButtonReg (stick hc1)) 0x80 0x00\<rparr>
                           else hc1)
                in record_event hc2 event v)
           | _ \<Rightarrow> (Some (BadInputEventType event ''bool''), hc))
      | PaddleFire \<Rightarrow>
          (case v of
             BoolValue b \<Rightarrow>
               (let hc1 = hc\<lparr>which := PaddleType\<rparr>;
                    d = (if b then 0x00 else 0xff);
                    hc2 = hc1\<lparr>mem_riot := InputDeviceWrite (mem_riot hc1) (paddleButtonReg (paddle hc1))
                                       d (buttonMask (paddle hc1))\<rparr>
                in record_event hc2 event v)
           | _ \<Rightarrow> (Some (BadInputEventType event ''bool''), hc))
      | PaddleSet \<Rightarrow>
          (case v of
             Float32Value f \<Rightarrow>
               record_event
                 (hc\<lparr>which := PaddleType, paddle := (paddle hc)\<lparr>resistance := f32_sub f32_one f\<rparr>\<rparr>)
                 event v
           | _ \<Rightarrow> (Some (BadInputEventType event ''float32''), hc))
      | KeyboardDown \<Rightarrow>
          (case v of
             RuneValue r \<Rightarrow>
               (let hc1 = hc\<lparr>which := KeyboardType\<rparr>
                in if r \<noteq> 0x31 \<and> r \<noteq> 0x32 \<and> r \<noteq> 0x33 \<and> r \<noteq> 0x34 \<and> r \<noteq> 0x35 \<and> r \<noteq> 0x36 \<and>
                      r \<noteq> 0x37 \<and> r \<noteq> 0x38 \<and> r \<noteq> 0x39 \<and> r \<noteq> 0x2a \<and> r \<noteq> 0x23
                   then (Some (BadInputEventType event ''numeric rune or * or #''), hc1)
                   else record_event (hc1\<lparr>keyboard := (keyboard hc1)\<lparr>keyboard_key := r\<rparr>\<rparr>) event v)
           | _ \<Rightarrow> (Some (BadInputEventType event ''rune''), hc))
      | KeyboardUp \<Rightarrow>
          (if v \<noteq> NilValue then (Some (BadInputEventType event ''nil''), hc)
           else record_event
                  (hc\<lparr>which := KeyboardType, keyboard := (keyboard hc)\<lparr>keyboard_key := 0x20\<rparr>\<rparr>)
                  event v)
      | Unplug \<Rightarrow> (Some (InputDeviceUnplugged (port_id hc)), hc)
      | OtherEvent n \<Rightarrow> (Some (UnknownInputEvent (port_id hc) event), hc))"

text \<open>\<open>ground\<close>: VBLANK bit 7 has been set, the input capacitor is grounded.\<close>

definition ground :: "HandController \<Rightarrow> HandController" where
  "ground hc =
     (if which hc \<noteq> PaddleType then hc
      else
        (let hc1 = hc\<lparr>paddle := (paddle hc)\<lparr>charge := 0\<rparr>\<rparr>
         in hc1\<lparr>mem_riot := InputDeviceWrite (mem_riot hc1) (puckReg (paddle hc1)) (charge (paddle hc1)) 0x00\<rparr>))"

text \<open>\<open>recharge\<close> is called on every video step, through \<open>step\<close>.\<close>

definition recharge :: "HandController \<Rightarrow> HandController" where
  "recharge hc =
     (if which hc \<noteq> PaddleType then hc
      else if charge (paddle hc) < 255 then
        (let hc1 = hc\<lparr>paddle := (paddle hc)\<lparr>ticks := f32_add (ticks (paddle hc)) paddleSensitivity\<rparr>\<rparr>
         in if ticks (paddle hc1) \<ge> resistance (paddle hc1) then
              (let hc2 = hc1\<lparr>paddle := (paddle hc1)\<lparr>ticks := 0, charge := charge (paddle hc1) + 1\<rparr>\<rparr>
               in hc2\<lparr>mem_tia := InputDeviceWrite (mem_tia hc2) (puckReg (paddle hc2)) (charge (paddle hc2)) 0x00\<rparr>)
            else hc1)
      else hc)"

definition HandController_step :: "HandController \<Rightarrow> HandController" where
  "HandController_step hc = recharge hc"

text \<open>The characters of the keypad: the digits, the star and the hash.\<close>

definition keypad_rune :: "rune \<Rightarrow> bool" where
  "keypad_rune r \<longleftrightarrow> (0x30 \<le> r \<and> r \<le> 0x39) \<or> r = 0x2a \<or> r = 0x23"

text \<open>
  The accumulator of \<open>recharge\<close>, counted in units of \<open>2^-30\<close> (in which the
  sensitivity constant is the integer 10737418 and one half is \<open>2^29\<close>):
  \<open>accumulate n a\<close> is the accumulator after \<open>n\<close> additions starting from \<open>a\<close>, and
  \<open>quiet n a\<close> says that none of these \<open>n\<close> additions reaches one half.
\<close>

fun accumulate :: "nat \<Rightarrow> int \<Rightarrow> int" where
  "accumulate 0 a = a"
| "accumulate (Suc n) a = accumulate n (round24 (a + 10737418))"

fun quiet :: "nat \<Rightarrow> int \<Rightarrow> bool" where
  "quiet 0 a = True"
| "quiet (Suc n) a = (round24 (a + 10737418) < 2 ^ 29 \<and> quiet n (round24 (a + 10737418)))"

section \<open>TIA: hardware/tia/tia.go\<close>

subsection \<open>Phase clock, polycounter and delayed events\<close>

text \<open>
  Modelled from the spec: the packages \<open>phaseclock\<close>, \<open>polycounter\<close> and \<open>delay\<close> that
  \<open>tia.go\<close> imports are not part of the sources at hand.

  The phase clock is a four-state cyclic counter (section 4.1): \<open>Tick\<close> advances one
  phase, \<open>Phi2\<close> holds in exactly one of the four phases (phase 2), \<open>Reset\<close> sets the
  phase to 0 and \<open>Align\<close>, which RSYNC uses to reset the phase clock, does the same.
\<close>

type_synonym PhaseClock = nat

definition pclk_Tick :: "PhaseClock \<Rightarrow> PhaseClock" where
  "pclk_Tick clk = (clk + 1) mod 4"

definition pclk_Phi2 :: "PhaseClock \<Rightarrow> bool" where
  "pclk_Phi2 clk \<longleftrightarrow> clk = 2"

definition pclk_Count :: "PhaseClock \<Rightarrow> int" where
  "pclk_Count clk = int clk"

definition pclk_Reset :: PhaseClock where
  "pclk_Reset = 0"

definition pclk_Align :: PhaseClock where
  "pclk_Align = 0"

text \<open>
  The hsync counter is a 6-bit polycounter: \<open>Tick\<close> moves it to the next count of its
  sequence of 63 and wraps to 0 at the end, \<open>Reset\<close> sets the count to 0. (The TIA
  resets it by hand at count 57, so the wrap of the sequence itself is never met.)
\<close>

type_synonym Polycounter = nat

definition hsync_Tick :: "Polycounter \<Rightarrow> Polycounter" where
  "hsync_Tick c = (if c + 1 = 63 then 0 else c + 1)"

definition hsync_Reset :: Polycounter where
  "hsync_Reset = 0"

text \<open>
  A delayed event is one slot (sections 3 and 9 of the specification): the remaining
  cycles, the payload and the unresolved flag. It follows \<open>video/future.go\<close>, the
  delayed-event type the sources do contain: scheduling sets the remaining cycles to
  the delay plus one and is a panic while the slot is unresolved; a tick that finds one
  remaining cycle fires the event, sets the remaining cycles to 0 and marks the slot
  resolved; any other tick counts down. The payload closures of \<open>tia.go\<close> are named by
  a datatype, one constructor per closure.
\<close>

datatype payload =
    NoPayload
  | VblankPayload uint8
  | RsyncAlignPayload
  | RsyncResetPayload
  | HmoveLatchPayload
  | HmovePayload
  | NewScanlinePayload
  | ResetHSyncPayload
  | ResetCBurstPayload
  | ResetHblankPayload

record delay_Event =
  remainingCycles :: int
  event_payload :: payload
  unresolved :: bool

datatype tia_error = ScheduleBeforeResolved

definition Schedule :: "delay_Event \<Rightarrow> int \<Rightarrow> payload \<Rightarrow> tia_error + delay_Event" where
  "Schedule e cycles p =
     (if unresolved e then Inl ScheduleBeforeResolved
      else Inr \<lparr>remainingCycles = cycles + 1, event_payload = p, unresolved = True\<rparr>)"

definition IsActive :: "delay_Event \<Rightarrow> bool" where
  "IsActive e \<longleftrightarrow> remainingCycles e > 0"

text \<open>\<open>Tick\<close>: whether the event fires on this tick, and the slot after the tick.\<close>

definition Tick :: "delay_Event \<Rightarrow> bool \<times> delay_Event" where
  "Tick e =
     (if remainingCycles e = 1
      then (True, e\<lparr>remainingCycles := remainingCycles e - 1, unresolved := False\<rparr>)
      else if remainingCycles e > 0
      then (False, e\<lparr>remainingCycles := remainingCycles e - 1\<rparr>)
      else (False, e))"


subsection \<open>The TIA\<close>

text \<open>
  \<open>ChipData\<close> is what \<open>mem.ChipRead()\<close> hands to the TIA: the name of the register
  the CPU has written to, and the value. \<open>None\<close> stands for "nothing was written".
\<close>

record ChipData =
  Name :: string
  Value :: uint8

record SignalAttributes =
  VSync :: bool
  VBlank :: bool
  HSync :: bool
  CBurst :: bool

text \<open>
  The struct \<open>TIA\<close>. The video and audio sub-systems and the television are outside
  this development: they hold no field of the struct, and of the fields they are given
  pointers to (\<open>pclk\<close>, \<open>hsync\<close>, \<open>Hblank\<close>, \<open>HmoveLatch\<close>) they only read. Their calls
  in \<open>Step\<close>, the pixel and audio attributes of the signal and the error of
  \<open>tv.Signal\<close> are left out; none of them changes what \<open>Step\<close> returns as the RDY flag.
  The two bits of \<open>vblankBits\<close> are kept as fields.
\<close>

record TIA =
  videoCycles :: int
  sig :: SignalAttributes
  Hblank :: bool
  wsync :: bool
  HmoveLatch :: bool
  HmoveCt :: uint8
  hsync :: Polycounter
  pclk :: PhaseClock
  futureVblank :: delay_Event
  futureRsyncAlign :: delay_Event
  futureRsyncReset :: delay_Event
  futureHmoveLatch :: delay_Event
  FutureHmove :: delay_Event
  futureHsync :: delay_Event
  groundPaddles :: bool
  latchFireButtons :: bool


definition newScanline :: "TIA \<Rightarrow> TIA" where
  "newScanline tia = tia\<lparr>wsync := False, Hblank := True, videoCycles := 0\<rparr>"

text \<open>What each payload closure of \<open>tia.go\<close> does when its event fires.\<close>

definition run_payload :: "payload \<Rightarrow> TIA \<Rightarrow> TIA" where
  "run_payload p tia =
     (case p of
        NoPayload \<Rightarrow> tia
      | VblankPayload v \<Rightarrow>
          tia\<lparr>sig := (sig tia)\<lparr>VBlank := (v AND 0x02 = 0x02)\<rparr>,
              groundPaddles := (v AND 0x80 = 0x80),
              latchFireButtons := (v AND 0x40 = 0x40)\<rparr>
      | RsyncAlignPayload \<Rightarrow> newScanline tia
      | RsyncResetPayload \<Rightarrow> tia\<lparr>hsync := hsync_Reset, pclk := pclk_Reset\<rparr>
      | HmoveLatchPayload \<Rightarrow> tia\<lparr>HmoveLatch := True\<rparr>
      | HmovePayload \<Rightarrow> tia\<lparr>HmoveCt := 15\<rparr>
      | NewScanlinePayload \<Rightarrow> newScanline tia
      | ResetHSyncPayload \<Rightarrow> tia\<lparr>sig := (sig tia)\<lparr>HSync := False, CBurst := True\<rparr>\<rparr>
      | ResetCBurstPayload \<Rightarrow> tia\<lparr>sig := (sig tia)\<lparr>CBurst := False\<rparr>\<rparr>
      | ResetHblankPayload \<Rightarrow> tia\<lparr>Hblank := False\<rparr>)"

text \<open>
  \<open>UpdateTIA\<close>: the side effects of a register write. The flag returned is true if the
  data has not been serviced. A panic of \<open>Schedule\<close> ends the call.
\<close>

definition UpdateTIA :: "ChipData \<Rightarrow> TIA \<Rightarrow> tia_error + (bool \<times> TIA)" where
  "UpdateTIA data tia =
     (if Name data = ''VSYNC'' then
        Inr (False, tia\<lparr>sig := (sig tia)\<lparr>VSync := (Value data AND 0x02 = 0x02)\<rparr>\<rparr>)
      else if Name data = ''VBLANK'' then
        (case Schedule (futureVblank tia) 1 (VblankPayload (Value data)) of
           Inl e \<Rightarrow> Inl e
         | Inr ev \<Rightarrow> Inr (False, tia\<lparr>futureVblank := ev\<rparr>))
      else if Name data = ''WSYNC'' then
        Inr (False, tia\<lparr>wsync := True\<rparr>)
      else if Name data = ''RSYNC'' then
        (case Schedule (futureRsyncAlign tia) 3 RsyncAlignPayload of
           Inl e \<Rightarrow> Inl e
         | Inr ev1 \<Rightarrow>
            (case Schedule (futureRsyncReset tia) 7 RsyncResetPayload of
               Inl e \<Rightarrow> Inl e
             | Inr ev2 \<Rightarrow>
                 Inr (False, tia\<lparr>pclk := pclk_Align, futureRsyncAlign := ev1,
                                 futureRsyncReset := ev2\<rparr>)))
      else if Name data = ''HMOVE'' then
        (let delay = (if pclk_Count (pclk tia) = 0 then 5
                      else if pclk_Count (pclk tia) = 1 then 4
                      else if pclk_Count (pclk tia) = 2 then 4
                      else if pclk_Count (pclk tia) = 3 then 2
                      else 0)
         in case Schedule (futureHmoveLatch tia) delay HmoveLatchPayload of
              Inl e \<Rightarrow> Inl e
            | Inr ev1 \<Rightarrow>
               (case Schedule (FutureHmove tia) (delay + 3) HmovePayload of
                  Inl e \<Rightarrow> Inl e
                | Inr ev2 \<Rightarrow> Inr (False, tia\<lparr>futureHmoveLatch := ev1, FutureHmove := ev2\<rparr>)))
      else Inr (True, tia))"

text \<open>
  The six calls \<open>tia.futureX.Tick()\<close> of \<open>Step\<close>, in the order of the source; an event
  that fires runs its payload on the TIA as the earlier ticks have left it.
\<close>

definition tick_futureVblank :: "TIA \<Rightarrow> TIA" where
  "tick_futureVblank tia =
     (case Tick (futureVblank tia) of
        (fired, ev) \<Rightarrow>
          (if fired then run_payload (event_payload ev) (tia\<lparr>futureVblank := ev\<rparr>)
           else tia\<lparr>futureVblank := ev\<rparr>))"

definition tick_futureRsyncAlign :: "TIA \<Rightarrow> TIA" where
  "tick_futureRsyncAlign tia =
     (case Tick (futureRsyncAlign tia) of
        (fired, ev) \<Rightarrow>
          (if fired then run_payload (event_payload ev) (tia\<lparr>futureRsyncAlign := ev\<rparr>)
           else tia\<lparr>futureRsyncAlign := ev\<rparr>))"

definition tick_futureRsyncReset :: "TIA \<Rightarrow> TIA" where
  "tick_futureRsyncReset tia =
     (case Tick (futureRsyncReset tia) of
        (fired, ev) \<Rightarrow>
          (if fired then run_payload (event_payload ev) (tia\<lparr>futureRsyncReset := ev\<rparr>)
           else tia\<lparr>futureRsyncReset := ev\<rparr>))"

definition tick_futureHmoveLatch :: "TIA \<Rightarrow> TIA" where
  "tick_futureHmoveLatch tia =
     (case Tick (futureHmoveLatch tia) of
        (fired, ev) \<Rightarrow>
          (if fired then run_payload (event_payload ev) (tia\<lparr>futureHmoveLatch := ev\<rparr>)
           else tia\<lparr>futureHmoveLatch := ev\<rparr>))"

definition tick_FutureHmove :: "TIA \<Rightarrow> TIA" where
  "tick_FutureHmove tia =
     (case Tick (FutureHmove tia) of
        (fired, ev) \<Rightarrow>
          (if fired then run_payload (event_payload ev) (tia\<lparr>FutureHmove := ev\<rparr>)
           else tia\<lparr>FutureHmove := ev\<rparr>))"

definition tick_futureHsync :: "TIA \<Rightarrow> TIA" where
  "tick_futureHsync tia =
     (case Tick (futureHsync tia) of
        (fired, ev) \<Rightarrow>
          (if fired then run_payload (event_payload ev) (tia\<lparr>futureHsync := ev\<rparr>)
           else tia\<lparr>futureHsync := ev\<rparr>))"

definition tick_events :: "TIA \<Rightarrow> TIA" where
  "tick_events tia =
     tick_futureHsync (tick_FutureHmove (tick_futureHmoveLatch
       (tick_futureRsyncReset (tick_futureRsyncAlign (tick_futureVblank tia)))))"

text \<open>
  The switch on \<open>tia.hsync.Count()\<close>, entered after the counter has ticked on Phi2;
  \<open>hsyncDelay\<close> is 3.
\<close>

definition hsyncDelay :: int where
  "hsyncDelay = 3"

definition schedule_futureHsync :: "payload \<Rightarrow> TIA \<Rightarrow> tia_error + TIA" where
  "schedule_futureHsync p tia =
     (case Schedule (futureHsync tia) hsyncDelay p of
        Inl e \<Rightarrow> Inl e
      | Inr ev \<Rightarrow> Inr (tia\<lparr>futureHsync := ev\<rparr>))"

definition hsync_decode :: "TIA \<Rightarrow> tia_error + TIA" where
  "hsync_decode tia =
     (if hsync tia = 57 then Inr (tia\<lparr>hsync := hsync_Reset, HmoveLatch := False\<rparr>)
      else if hsync tia = 56 then
        (if \<not> IsActive (futureRsyncAlign tia) then schedule_futureHsync NewScanlinePayload tia
         else Inr tia)
      else if hsync tia = 4 then Inr (tia\<lparr>sig := (sig tia)\<lparr>HSync := True\<rparr>\<rparr>)
      else if hsync tia = 8 then schedule_futureHsync ResetHSyncPayload tia
      else if hsync tia = 12 then schedule_futureHsync ResetCBurstPayload tia
      else if hsync tia = 16 then
        (if \<not> HmoveLatch tia then schedule_futureHsync ResetHblankPayload tia else Inr tia)
      else if hsync tia = 18 then
        (if HmoveLatch tia then schedule_futureHsync ResetHblankPayload tia else Inr tia)
      else Inr tia)"

text \<open>
  The part of \<open>Step\<close> after the memory has been serviced: the phase clock ticks, the
  delayed events tick, the hsync counter ticks on Phi2 and is decoded, and the HMOVE
  counter counts down on Phi2. The result is the RDY flag \<open>!tia.wsync\<close> and the TIA.
\<close>

definition clock_TIA :: "TIA \<Rightarrow> tia_error + (bool \<times> TIA)" where
  "clock_TIA tia0 =
     (let tia1 = tia0\<lparr>pclk := pclk_Tick (pclk tia0)\<rparr>;
          tia2 = tick_events tia1
      in case (if pclk_Phi2 (pclk tia2)
               then hsync_decode (tia2\<lparr>hsync := hsync_Tick (hsync tia2)\<rparr>)
               else Inr tia2) of
           Inl e \<Rightarrow> Inl e
         | Inr tia3 \<Rightarrow>
            (let isHmove = pclk_Phi2 (pclk tia3);
                 tia4 = (if isHmove \<and> HmoveCt tia3 \<noteq> 0xff
                         then tia3\<lparr>HmoveCt := HmoveCt tia3 - 1\<rparr> else tia3)
             in Inr (\<not> wsync tia4, tia4)))"

text \<open>
  \<open>Step\<close> moves the TIA forward one video cycle and returns the state of the CPU's
  RDY flag. \<open>chipRead\<close> is the answer of \<open>mem.ChipRead()\<close>, asked for only if
  \<open>readMemory\<close> is set.
\<close>

definition Step :: "bool \<Rightarrow> ChipData option \<Rightarrow> TIA \<Rightarrow> tia_error + (bool \<times> TIA)" where
  "Step readMemory chipRead tia =
     (let tia0 = tia\<lparr>videoCycles := videoCycles tia + 1\<rparr>
      in case (if readMemory then chipRead else None) of
           None \<Rightarrow> clock_TIA tia0
         | Some memoryData \<Rightarrow>
            (case UpdateTIA memoryData tia0 of
               Inl e \<Rightarrow> Inl e
             | Inr (_, tia1) \<Rightarrow> clock_TIA tia1))"

text \<open>
  A run of video cycles: one entry of the list per call of \<open>Step\<close>, holding the
  \<open>readMemory\<close> flag and the answer of the memory. The result holds the RDY flags
  returned, in order, and the TIA at the end; a panic ends the run.
\<close>

fun Steps :: "(bool \<times> ChipData option) list \<Rightarrow> TIA \<Rightarrow> tia_error + (bool list \<times> TIA)" where
  "Steps [] tia = Inr ([], tia)"
| "Steps ((readMemory, chipRead) # rest) tia =
     (case Step readMemory chipRead tia of
        Inl e \<Rightarrow> Inl e
      | Inr (rdy, tia') \<Rightarrow>
         (case Steps rest tia' of
            Inl e \<Rightarrow> Inl e
          | Inr (rdys, tia'') \<Rightarrow> Inr (rdy # rdys, tia'')))"

subsection \<open>States of a slot and of a scan line\<close>

text \<open>
  A slot is \<open>resolved\<close> when nothing is scheduled in it, and \<open>pending\<close> with \<open>r\<close>
  remaining cycles and payload \<open>p\<close> when its event is still to fire.
\<close>

definition resolved :: "delay_Event \<Rightarrow> bool" where
  "resolved e \<longleftrightarrow> remainingCycles e = 0 \<and> \<not> unresolved e"

definition pending :: "delay_Event \<Rightarrow> int \<Rightarrow> payload \<Rightarrow> bool" where
  "pending e r p \<longleftrightarrow> 0 < r \<and> remainingCycles e = r \<and> event_payload e = p \<and> unresolved e"

text \<open>
  \<open>slot_ok ps e\<close>: the slot \<open>e\<close> is resolved or pending with one of the payloads
  \<open>ps\<close>. \<open>slots_ok\<close>: every slot of the TIA holds, if anything, one of the payloads
  that \<open>tia.go\<close> schedules in it. This holds of \<open>NewTIA\<close> and is kept by \<open>Step\<close>.
\<close>

definition slot_ok :: "payload list \<Rightarrow> delay_Event \<Rightarrow> bool" where
  "slot_ok ps e \<longleftrightarrow>
     resolved e \<or> (0 < remainingCycles e \<and> unresolved e \<and> event_payload e \<in> set ps)"









text \<open>
  The TIA after a run of video cycles, if the run does not panic.
\<close>

definition TIA_after :: "(bool \<times> ChipData option) list \<Rightarrow> TIA \<Rightarrow> TIA option" where
  "TIA_after ins tia = (case Steps ins tia of Inl e \<Rightarrow> None | Inr (rdys, tia') \<Rightarrow> Some tia')"






section \<open>Verified properties\<close>

lemma hotspot_segment0:
  assumes "k < 8"
  shows "hotspot cart (0x0fe0 + of_nat k) False = (True, cart\<lparr>segment := (segment cart)[0 := k]\<rparr>)"
proof -
  from assms consider "k = 0" | "k = 1" | "k = 2" | "k = 3" | "k = 4" | "k = 5" | "k = 6" | "k = 7"
    by linarith
  then show ?thesis
    by cases (simp_all add: hotspot_def)
qed

lemma hotspot_passive: "hotspot cart addr True = (addr \<ge> 0xfe0 \<and> addr \<le> 0xff7, cart)"
  by (simp add: hotspot_def)

lemma hotspot_low: "addr \<le> 0x3ff \<Longrightarrow> hotspot cart addr p = (False, cart)"
  by (auto simp: hotspot_def word_le_nat_alt)

lemma and_mask_low: 
  assumes "(addr::uint16) \<le> 0x3ff" shows "addr AND 0x03ff = addr"
proof -
  have m: "(0x3ff :: uint16) = mask 10" by (simp add: mask_eq_exp_minus_1)
  from assms have "uint addr < 2 ^ 10" by (simp add: word_le_def)
  then show ?thesis unfolding m by (simp add: mask_eq_iff)
qed

lemma Read_segment0:
  assumes wf: "wellformed cart" and a: "addr \<le> 0x3ff"
  shows "Read cart addr p = Inr (banks cart ! (segment cart ! 0) ! unat addr, cart)"
proof -
  from wf have s: "0 < length (segment cart)" "segment cart ! 0 < length (banks cart)"
    by (auto simp: wellformed_def list_all_length)
  with wf have "length (banks cart ! (segment cart ! 0)) = 1024"
    by (auto simp: wellformed_def list_all_length)
  moreover from a have "unat addr < 1024" by (simp add: word_le_nat_alt)
  ultimately show ?thesis using s a
    by (simp add: Read_def hotspot_low bankByte_def index_def and_mask_low)
qed

lemma hotspot_wellformed: "wellformed cart \<Longrightarrow> wellformed (snd (hotspot cart addr pas))"
  by (simp add: hotspot_def wellformed_def list_all_length NumBanks_def nth_list_update)

lemma hotspot_banks: "banks (snd (hotspot cart addr pas)) = banks cart"
  by (simp add: hotspot_def)

lemma hotspot_keeps_segment0:
  "\<not> (\<not> pas \<and> 0xfe0 \<le> addr \<and> addr \<le> 0xfe7) \<Longrightarrow>
   segment (snd (hotspot cart addr pas)) ! 0 = segment cart ! 0"
  by (auto simp: hotspot_def)

lemma and_3dd_bound: "unat ((addr::uint16) AND 0x3dd) < 1024"
proof -
  have "addr AND 0x3dd \<le> 0x3dd" by (rule word_and_le1)
  then show ?thesis by (simp add: word_le_nat_alt)
qed

lemma pokeByte_ok:
  assumes wf: "wellformed cart" and s: "seg < 4"
  shows "\<exists>c. pokeByte cart seg addr data = Inr c \<and> wellformed c \<and> segment c = segment cart"
proof -
  from wf s have 1: "seg < length (segment cart)" "segment cart ! seg < length (banks cart)"
    by (auto simp: wellformed_def list_all_length)
  with wf have 2: "length (banks cart ! (segment cart ! seg)) = 1024"
    by (auto simp: wellformed_def list_all_length)
  show ?thesis using 1 2 wf and_3dd_bound [of addr]
    by (auto simp: pokeByte_def index_def wellformed_def list_all_length nth_list_update)
qed

lemma bankByte_ok:
  assumes wf: "wellformed cart" and s: "seg < 4"
  shows "\<exists>d. bankByte cart seg addr = Inr d"
proof -
  from wf s have 1: "seg < length (segment cart)" "segment cart ! seg < length (banks cart)"
    by (auto simp: wellformed_def list_all_length)
  with wf have 2: "length (banks cart ! (segment cart ! seg)) = 1024"
    by (auto simp: wellformed_def list_all_length)
  have "addr AND 0x3ff \<le> 0x3ff" by (rule word_and_le1)
  then have "unat (addr AND 0x3ff) < 1024" by (simp add: word_le_nat_alt)
  then show ?thesis using 1 2 
    by (auto simp: bankByte_def index_def)
qed

lemma Read_ok:
  assumes wf: "wellformed cart"
  shows "\<exists>d. Read cart addr pas = Inr (d, snd (hotspot cart addr pas))"
proof (cases "hotspot cart addr pas")
  case (Pair h c)
  with hotspot_wellformed [OF wf, of addr pas] have wfc: "wellformed c" by simp
  show ?thesis
    using Pair bankByte_ok [OF wfc, of 0 addr] bankByte_ok [OF wfc, of 1 addr]
      bankByte_ok [OF wfc, of 2 addr] bankByte_ok [OF wfc, of 3 addr]
    by (auto simp: Read_def split: bool.splits)
qed

lemma Write_ok:
  assumes wf: "wellformed cart"
  shows "\<exists>e c. Write cart addr data pas poke = Inr (e, c) \<and> wellformed c \<and>
           segment c = segment (snd (hotspot cart addr pas))"
proof (cases "hotspot cart addr pas")
  case (Pair h c)
  with hotspot_wellformed [OF wf, of addr pas] have wfc: "wellformed c" by simp
  show ?thesis
    using Pair wfc pokeByte_ok [OF wfc, of 0 addr data] pokeByte_ok [OF wfc, of 1 addr data]
      pokeByte_ok [OF wfc, of 2 addr data] pokeByte_ok [OF wfc, of 3 addr data]
    by (auto simp: Write_def split: bool.splits)
qed

lemma access_cart_ok:
  assumes wf: "wellformed cart"
  shows "\<exists>c. access_cart cart a addr pas = Inr c \<and> wellformed c \<and>
           segment c = segment (snd (hotspot cart addr pas))"
proof (cases a)
  case ReadAccess
  then show ?thesis
    using Read_ok [OF wf, of addr pas] hotspot_wellformed [OF wf, of addr pas]
    by (auto simp: access_cart_def)
next
  case (WriteAccess data poke)
  then show ?thesis
    using Write_ok [OF wf, of addr data pas poke]
    by (auto simp: access_cart_def)
qed

lemma access_all_keeps_segment0:
  "wellformed cart \<Longrightarrow> list_all (\<lambda>op. \<not> switches_segment0 op) ops \<Longrightarrow>
   \<exists>c. access_all cart ops = Inr c \<and> wellformed c \<and> segment c ! 0 = segment cart ! 0"
proof (induction ops arbitrary: cart)
  case Nil
  then show ?case by simp
next
  case (Cons op ops)
  obtain a addr pas where op: "op = (a, addr, pas)" by (cases op) auto
  from access_cart_ok [OF Cons.prems(1), of a addr pas]
  obtain c where c: "access_cart cart a addr pas = Inr c" "wellformed c"
    "segment c = segment (snd (hotspot cart addr pas))" by blast
  from Cons.prems(2) op have "\<not> (\<not> pas \<and> 0xfe0 \<le> addr \<and> addr \<le> 0xfe7)"
    by (simp add: switches_segment0_def)
  with c(3) have s: "segment c ! 0 = segment cart ! 0"
    by (simp add: hotspot_keeps_segment0)
  from Cons.IH [OF c(2)] Cons.prems(2) 
  obtain c' where "access_all c ops = Inr c'" "wellformed c'" "segment c' ! 0 = segment c ! 0"
    by auto
  with c(1) s op show ?case by simp
qed

text \<open>
  Claim C5. On a Parker Bros cartridge, an active access (a read or a write) to address
  0x0FE0 + k, for k from 0 to 7, points segment 0 to bank k. From then on, and for as
  long as no other active access to 0x0FE0..0x0FE7 is made, every Read of an address in
  0x0000..0x03FF returns the byte of bank k at that offset and leaves the cartridge as it
  is. A passive access to any hotspot address 0x0FE0..0x0FF7 leaves the whole cartridge,
  and so all four segments, unchanged.
\<close>

theorem parkerBros_segment0_switch:
  assumes wf: "wellformed cart" and k: "k < 8"
  shows "(\<exists>c1. access_cart cart a (0x0fe0 + of_nat k) False = Inr c1 \<and> segment c1 ! 0 = k \<and>
            (\<forall>ops. list_all (\<lambda>op. \<not> switches_segment0 op) ops \<longrightarrow>
               (\<exists>c2. access_all c1 ops = Inr c2 \<and>
                  (\<forall>addr p. addr \<le> 0x03ff \<longrightarrow>
                     Read c2 addr p = Inr (banks c2 ! k ! unat addr, c2))))) \<and>
         (\<forall>addr. 0xfe0 \<le> addr \<and> addr \<le> 0xff7 \<longrightarrow> access_cart cart a addr True = Inr cart)"
proof (intro conjI allI impI)
  from access_cart_ok [OF wf, of a "0x0fe0 + of_nat k" False] hotspot_segment0 [OF k, of cart]
  obtain c1 where c1: "access_cart cart a (0x0fe0 + of_nat k) False = Inr c1" "wellformed c1"
    "segment c1 = (segment cart)[0 := k]" by auto
  from wf have "0 < length (segment cart)" by (simp add: wellformed_def)
  with c1(3) have s: "segment c1 ! 0 = k" by simp
  have "\<exists>c2. access_all c1 ops = Inr c2 \<and>
           (\<forall>addr p. addr \<le> 0x03ff \<longrightarrow> Read c2 addr p = Inr (banks c2 ! k ! unat addr, c2))"
    if "list_all (\<lambda>op. \<not> switches_segment0 op) ops" for ops
  proof -
    from access_all_keeps_segment0 [OF c1(2) that] s
    obtain c2 where c2: "access_all c1 ops = Inr c2" "wellformed c2" "segment c2 ! 0 = k" by auto
    then show ?thesis using Read_segment0 [OF c2(2)] by auto
  qed
  with c1(1) s show "\<exists>c1. access_cart cart a (0x0fe0 + of_nat k) False = Inr c1 \<and> segment c1 ! 0 = k \<and>
            (\<forall>ops. list_all (\<lambda>op. \<not> switches_segment0 op) ops \<longrightarrow>
               (\<exists>c2. access_all c1 ops = Inr c2 \<and>
                  (\<forall>addr p. addr \<le> 0x03ff \<longrightarrow>
                     Read c2 addr p = Inr (banks c2 ! k ! unat addr, c2))))"
    by blast
next
  fix addr :: uint16 assume "0xfe0 \<le> addr \<and> addr \<le> 0xff7"
  then have "hotspot cart addr True = (True, cart)" by (simp add: hotspot_passive)
  then show "access_cart cart a addr True = Inr cart"
    by (cases a) (simp_all add: access_cart_def Read_def Write_def)
qed

theorem parkerBros_segment0_switch_witness:
  "wellformed (Initialise \<lparr>bankSize = 1024,
       banks = map (\<lambda>k. replicate 1024 (of_nat k)) [0..<8], segment = [0, 0, 0, 0]\<rparr>) \<and>
   (4::nat) < 8 \<and>
   (\<exists>c1. access_cart (Initialise \<lparr>bankSize = 1024,
       banks = map (\<lambda>k. replicate 1024 (of_nat k)) [0..<8], segment = [0, 0, 0, 0]\<rparr>)
         ReadAccess 0x0fe4 False = Inr c1 \<and>
      segment c1 ! 0 = 4 \<and> Read c1 0x0123 False = Inr (banks c1 ! 4 ! unat (0x0123 :: uint16), c1))"
proof -
  let ?c = "Initialise \<lparr>bankSize = 1024,
       banks = map (\<lambda>k. replicate 1024 (of_nat k)) [0..<8], segment = [0, 0, 0, 0]\<rparr>"
  have u: "[0..<8] = [0, 1, 2, 3, 4, 5, 6, 7]" by (simp add: upt_rec)
  have wf: "wellformed ?c"
    by (simp add: wellformed_def Initialise_def NumBanks_def u)
  have k: "(4::nat) < 8" by simp
  from parkerBros_segment0_switch [OF wf k, of ReadAccess]
  obtain c1 where c1: "access_cart ?c ReadAccess 0x0fe4 False = Inr c1" "segment c1 ! 0 = 4"
    and rd: "\<forall>ops. list_all (\<lambda>op. \<not> switches_segment0 op) ops \<longrightarrow>
               (\<exists>c2. access_all c1 ops = Inr c2 \<and>
                  (\<forall>addr p. addr \<le> 0x03ff \<longrightarrow>
                     Read c2 addr p = Inr (banks c2 ! 4 ! unat addr, c2)))"
    by auto
  from rd [rule_format, of "[]"] have "Read c1 0x0123 False = Inr (banks c1 ! 4 ! unat (0x0123 :: uint16), c1)"
    by simp
  with wf k c1 show ?thesis by blast
qed

lemma byteIs_in: "i < length b \<Longrightarrow> byteIs b i v = Inr (b ! i = v)"
  by (simp add: byteIs_def index_def)

lemma byteIs_out: "\<not> i < length b \<Longrightarrow> byteIs b i v = Inl IndexOutOfRange"
  by (simp add: byteIs_def index_def)

lemma pair_in:
  "Suc i < length b \<Longrightarrow>
   andalso (byteIs b i x) (byteIs b (Suc i) y) = Inr (b ! i = x \<and> b ! (Suc i) = y)"
  by (simp add: andalso_def byteIs_in split: bool.splits)

lemma occurrences_from_step:
  "Suc i < length b \<Longrightarrow>
   length (filter P [i..<length b - 1]) =
     (if P i then 1 else 0) + length (filter P [Suc i..<length b - 1])"
  by (subst upt_rec) auto

lemma tigervision_loop_correct:
  "0 < threshold \<Longrightarrow>
   fingerprintTigervision_loop b i threshold =
     Inr (nat threshold \<le> length (filter (\<lambda>i. b ! i = 0x85 \<and> b ! (i + 1) = 0x3f) [i..<length b - 1]))"
proof (induction b i threshold rule: fingerprintTigervision_loop.induct)
  case (1 b i threshold)
  let ?P = "\<lambda>i. b ! i = 0x85 \<and> b ! (i + 1) = 0x3f"
  show ?case
  proof (cases "int i < int (length b) - 1")
    case False
    then have "[i..<length b - 1] = []" by simp
    with False "1.prems" show ?thesis
      by (subst fingerprintTigervision_loop.simps) simp
  next
    case True
    then have in_range: "Suc i < length b" by simp
    note step = occurrences_from_step [OF in_range, of ?P]
    show ?thesis
    proof (cases "(if ?P i then threshold - 1 else threshold) = 0")
      case True
      with \<open>int i < int (length b) - 1\<close> in_range "1.prems" step show ?thesis
        by (subst fingerprintTigervision_loop.simps) (auto simp: pair_in split: if_splits)
    next
      case False
      with "1.prems" have pos: "0 < (if ?P i then threshold - 1 else threshold)"
        by (auto split: if_splits)
      have "fingerprintTigervision_loop b (i + 1) (if ?P i then threshold - 1 else threshold) =
            Inr (nat (if ?P i then threshold - 1 else threshold)
                   \<le> length (filter ?P [i + 1..<length b - 1]))"
        using "1.IH" [OF \<open>int i < int (length b) - 1\<close> _ False pos] pair_in [OF in_range, of "0x85" "0x3f"] by simp
      with \<open>int i < int (length b) - 1\<close> in_range False "1.prems" step show ?thesis
        by (subst fingerprintTigervision_loop.simps) (auto simp: pair_in split: if_splits)
    qed
  qed
qed

lemma fingerprintTigervision_correct:
  "fingerprintTigervision b = Inr (5 \<le> occurrences 0x85 0x3f b)"
  using tigervision_loop_correct [of 5 b 0]
  by (simp add: fingerprintTigervision_def occurrences_def)

lemma threePlus_loop_nonmatch:
  "\<not> (threshold3e \<le> int (length (filter (\<lambda>i. b ! i = 0x85 \<and> b ! (i + 1) = 0x3e) [i..<length b - 1])) \<and>
      threshold3f \<le> int (length (filter (\<lambda>i. b ! i = 0x85 \<and> b ! (i + 1) = 0x3f) [i..<length b - 1]))) \<Longrightarrow>
   fingerprint3ePlus_loop b i threshold3e threshold3f =
     (if i < length b \<and> last b = 0x85 then Inl IndexOutOfRange else Inr False)"
proof (induction b i threshold3e threshold3f rule: fingerprint3ePlus_loop.induct)
  case (1 b i t3e t3f)
  let ?E = "\<lambda>i. b ! i = 0x85 \<and> b ! (i + 1) = 0x3e"
  let ?F = "\<lambda>i. b ! i = 0x85 \<and> b ! (i + 1) = 0x3f"
  consider (past) "\<not> i < length b" | (final) "Suc i = length b" | (inner) "Suc i < length b"
    by linarith
  then show ?case
  proof cases
    case past
    then show ?thesis
      by (subst fingerprint3ePlus_loop.simps) simp
  next
    case final
    then have i: "i < length b" and nxt: "\<not> Suc i < length b" and e: "[i..<length b - 1] = []"
      and e': "[i + 1..<length b - 1] = []"
      by auto
    from final have l: "last b = b ! i"
      by (metis diff_Suc_1 last_conv_nth length_0_conv nat.distinct(1))
    show ?thesis
    proof (cases "b ! i = 0x85")
      case True
      with i nxt l show ?thesis
        by (subst fingerprint3ePlus_loop.simps) (simp add: andalso_def byteIs_in byteIs_out)
    next
      case False
      from "1.prems" have npos: "\<not> (t3e \<le> 0 \<and> t3f \<le> 0)" unfolding e by simp
      have m: "andalso (byteIs b i 0x85) (byteIs b (i + 1) 0x3e) = Inr False"
        "andalso (byteIs b i 0x85) (byteIs b (i + 1) 0x3f) = Inr False"
        using False i by (simp_all add: andalso_def byteIs_in)
      have npos': "\<not> ((if False then t3e - 1 else t3e) \<le> 0 \<and> (if False then t3f - 1 else t3f) \<le> 0)"
        using npos by simp
      have nxt': "\<not> ((if False then t3e - 1 else t3e) \<le> int (length (filter ?E [i + 1..<length b - 1])) \<and>
                (if False then t3f - 1 else t3f) \<le> int (length (filter ?F [i + 1..<length b - 1])))"
        unfolding e' using npos by simp
      have "fingerprint3ePlus_loop b (i + 1) t3e t3f =
              (if i + 1 < length b \<and> last b = 0x85 then Inl IndexOutOfRange else Inr False)"
        using "1.IH" [OF i m npos' nxt'] by simp
      with i nxt m npos l False show ?thesis
        by (subst fingerprint3ePlus_loop.simps) simp
    qed
  next
    case inner
    then have i: "i < length b" by simp
    note sE = occurrences_from_step [OF inner, of ?E]
    note sF = occurrences_from_step [OF inner, of ?F]
    have m: "andalso (byteIs b i 0x85) (byteIs b (i + 1) 0x3e) = Inr (?E i)"
      "andalso (byteIs b i 0x85) (byteIs b (i + 1) 0x3f) = Inr (?F i)"
      using pair_in [OF inner] by simp_all
    from "1.prems" sE sF
    have nxt: "\<not> ((if ?E i then t3e - 1 else t3e) \<le> int (length (filter ?E [i + 1..<length b - 1])) \<and>
                (if ?F i then t3f - 1 else t3f) \<le> int (length (filter ?F [i + 1..<length b - 1])))"
      by (auto split: if_splits)
    then have npos: "\<not> ((if ?E i then t3e - 1 else t3e) \<le> 0 \<and> (if ?F i then t3f - 1 else t3f) \<le> 0)"
      by linarith
    have "fingerprint3ePlus_loop b (i + 1) (if ?E i then t3e - 1 else t3e) (if ?F i then t3f - 1 else t3f) =
              (if i + 1 < length b \<and> last b = 0x85 then Inl IndexOutOfRange else Inr False)"
      using "1.IH" [OF i m npos nxt] .
    with i inner m npos show ?thesis
      by (subst fingerprint3ePlus_loop.simps) simp
  qed
qed

lemma fingerprint3ePlus_nonmatch:
  "\<not> (5 \<le> occurrences 0x85 0x3e b \<and> 5 \<le> occurrences 0x85 0x3f b) \<Longrightarrow>
   fingerprint3ePlus b = (if b \<noteq> [] \<and> last b = 0x85 then Inl IndexOutOfRange else Inr False)"
  using threePlus_loop_nonmatch [of 5 b 0 5]
  by (simp add: fingerprint3ePlus_def occurrences_def)

lemma occurrences_absent: "y \<notin> set b \<Longrightarrow> occurrences x y b = 0"
proof -
  assume y: "y \<notin> set b"
  have "\<not> (b ! i = x \<and> b ! (i + 1) = y)" if "i \<in> set [0..<length b - 1]" for i
  proof -
    from that have "i + 1 < length b" by auto
    then have "b ! (i + 1) \<in> set b" by (rule nth_mem)
    with y show ?thesis by auto
  qed
  then have "filter (\<lambda>i. b ! i = x \<and> b ! (i + 1) = y) [0..<length b - 1] = []"
    by (simp only: filter_empty_conv) blast
  then show ?thesis by (simp only: occurrences_def list.size)
qed

text \<open>
  On every image of 8192 bytes on which the Harmony test and the 3E+ test both return
  false (the Supercharger fast-load test fails on that length by itself), automatic
  mapper selection chooses the Tigervision constructor if and only if the two bytes
  0x85 0x3F occur at five or more positions of the image. The 3E+ test returns false
  only if it does not panic: see \<open>fingerprint3ePlus_nonmatch\<close>.
\<close>

lemma tigervision_chosen_iff:
  assumes len: "length data = 8192"
    and harmony: "fingerprintHarmony data = Inr False"
    and threePlus: "fingerprint3ePlus data = Inr False"
  shows "fingerprint data = Inr NewTigervision \<longleftrightarrow> 5 \<le> occurrences 0x85 0x3f data"
proof -
  from len have sc: "\<not> fingerprintSuperchargerFastLoad data"
    by (simp add: fingerprintSuperchargerFastLoad_def)
  have "fingerprint data = fingerprint8k data"
    using len harmony threePlus sc by (simp add: fingerprint_def)
  then show ?thesis
    by (simp add: fingerprint8k_def fingerprintTigervision_correct split: sum.splits bool.splits)
qed

text \<open>
  Claim C10, as amended. Fingerprinting is not total on images. The Harmony test reads
  offsets 0x20 to 0x23 with no length guard, so every image of at most 0x20 bytes makes
  \<open>Cartridge.fingerprint\<close> panic. The 3E+ test reads \<open>b[i+1]\<close> at every index holding
  0x85, the last one included, so every image that fails the Harmony test, has no
  Supercharger length, does not reach both 3E+ thresholds and ends with 0x85 makes it
  panic as well.
\<close>

theorem fingerprint_panics:
  "(length b \<le> 0x20 \<longrightarrow> fingerprint b = Inl IndexOutOfRange) \<and>
   (fingerprintHarmony b = Inr False \<and> \<not> fingerprintSuperchargerFastLoad b \<and>
    b \<noteq> [] \<and> last b = 0x85 \<and>
    \<not> (5 \<le> occurrences 0x85 0x3e b \<and> 5 \<le> occurrences 0x85 0x3f b)
      \<longrightarrow> fingerprint b = Inl IndexOutOfRange)"
proof (intro conjI impI)
  assume "length b \<le> 0x20"
  then have "fingerprintHarmony b = Inl IndexOutOfRange"
    by (simp add: fingerprintHarmony_def andalso_def byteIs_def index_def)
  then show "fingerprint b = Inl IndexOutOfRange"
    by (simp add: fingerprint_def)
next
  assume a: "fingerprintHarmony b = Inr False \<and> \<not> fingerprintSuperchargerFastLoad b \<and>
    b \<noteq> [] \<and> last b = 0x85 \<and>
    \<not> (5 \<le> occurrences 0x85 0x3e b \<and> 5 \<le> occurrences 0x85 0x3f b)"
  then have "fingerprint3ePlus b = Inl IndexOutOfRange"
    using fingerprint3ePlus_nonmatch [of b] by simp
  with a show "fingerprint b = Inl IndexOutOfRange"
    by (simp add: fingerprint_def)
qed

lemma harmony_at_32: "32 < length b \<Longrightarrow> b ! 32 \<noteq> 0x1e \<Longrightarrow> fingerprintHarmony b = Inr False"
  by (simp add: fingerprintHarmony_def andalso_def byteIs_def index_def)

text \<open>
  Claim C10 as stated says that any image shorter than 0x24 bytes panics. The test
  \<open>b[0x20] == 0x1e && ...\<close> stops at its first false conjunct: an image of 33 zero
  bytes fails the Harmony test without a panic and ends in the typed error for an
  unrecognised size.
\<close>

theorem short_image_counterexample:
  "length (replicate 33 (0::uint8)) < 0x24 \<and>
   fingerprint (replicate 33 (0::uint8)) = Inl (CartridgeError ''unrecognised cartridge size'')"
proof -
  let ?b = "replicate 33 (0::uint8)"
  have h: "fingerprintHarmony ?b = Inr False"
    by (rule harmony_at_32) simp_all
  have "0x3e \<notin> set ?b" by simp
  then have "occurrences 0x85 0x3e ?b = 0" by (rule occurrences_absent)
  then have t: "fingerprint3ePlus ?b = Inr False"
    using fingerprint3ePlus_nonmatch [of ?b] by simp
  show ?thesis
    using h t by (simp add: fingerprint_def fingerprintSuperchargerFastLoad_def)
qed

theorem fingerprint_panics_witness:
  "fingerprint (replicate 32 (0::uint8)) = Inl IndexOutOfRange \<and>
   fingerprint (replicate 8191 0 @ [0x85]) = Inl IndexOutOfRange"
proof -
  let ?b = "replicate 8191 (0::uint8) @ [0x85]"
  have h: "fingerprintHarmony ?b = Inr False"
    by (rule harmony_at_32) (simp_all add: nth_append)
  have "0x3e \<notin> set ?b" by simp
  then have o: "occurrences 0x85 0x3e ?b = 0" by (rule occurrences_absent)
  have s: "\<not> fingerprintSuperchargerFastLoad ?b"
    by (simp add: fingerprintSuperchargerFastLoad_def)
  have 1: "length (replicate 32 (0::uint8)) \<le> 0x20" by simp
  from fingerprint_panics [of "replicate 32 0"] 1
  have a: "fingerprint (replicate 32 (0::uint8)) = Inl IndexOutOfRange" by blast
  from fingerprint_panics [of ?b] h o s
  have "fingerprint ?b = Inl IndexOutOfRange" by simp
  with a show ?thesis by simp
qed

lemma occurrences_prefix:
  assumes "n \<le> length b - 1"
  shows "length (filter (\<lambda>i. b ! i = x \<and> b ! (i + 1) = y) [0..<n]) \<le> occurrences x y b"
proof -
  from assms have "[0..<length b - 1] = [0..<n] @ [n..<length b - 1]"
    by (metis le_add_diff_inverse upt_add_eq_append zero_le)
  then show ?thesis by (simp add: occurrences_def)
qed

lemma tigervision_chosen_iff_example:
  "length ([0x85, 0x3f, 0x85, 0x3f, 0x85, 0x3f, 0x85, 0x3f, 0x85, 0x3f] @ replicate 8182 (0::uint8)) = 8192 \<and>
   5 \<le> occurrences 0x85 0x3f ([0x85, 0x3f, 0x85, 0x3f, 0x85, 0x3f, 0x85, 0x3f, 0x85, 0x3f] @ replicate 8182 0) \<and>
   fingerprint ([0x85, 0x3f, 0x85, 0x3f, 0x85, 0x3f, 0x85, 0x3f, 0x85, 0x3f] @ replicate 8182 0)
     = Inr NewTigervision"
proof -
  let ?b = "[0x85, 0x3f, 0x85, 0x3f, 0x85, 0x3f, 0x85, 0x3f, 0x85, 0x3f] @ replicate 8182 (0::uint8)"
  have len: "length ?b = 8192" by simp
  have h: "fingerprintHarmony ?b = Inr False"
    by (rule harmony_at_32) (simp_all add: nth_append)
  have "0x3e \<notin> set ?b" by simp
  then have "occurrences 0x85 0x3e ?b = 0" by (rule occurrences_absent)
  moreover have "last ?b \<noteq> 0x85" by simp
  ultimately have t: "fingerprint3ePlus ?b = Inr False"
    using fingerprint3ePlus_nonmatch [of ?b] by simp
  have u: "[0..<9] = [0, 1, 2, 3, 4, 5, 6, 7, 8]" by (simp add: upt_rec)
  have "length (filter (\<lambda>i. ?b ! i = 0x85 \<and> ?b ! (i + 1) = 0x3f) [0..<9]) \<le> occurrences 0x85 0x3f ?b"
    by (rule occurrences_prefix) simp
  then have c: "5 \<le> occurrences 0x85 0x3f ?b"
    by (simp add: u)
  from tigervision_chosen_iff [OF len h t] c len show ?thesis by simp
qed

text \<open>
  Claim C6 fails on the code at the image of 8192 bytes made of five times 0x85 0x3F,
  8181 zero bytes and a final 0x85. The image does not match the Harmony test, has no
  Supercharger length and holds no 0x85 0x3E at all, so it does not match the 3E+
  fingerprint; 0x85 0x3F occurs five times, and \<open>fingerprintTigervision\<close> by itself
  returns true on it. But \<open>fingerprint3ePlus\<close>, which runs first, ranges over every index
  and reads \<open>b[i+1]\<close> wherever \<open>b[i]\<close> is 0x85, the last index included, where
  \<open>fingerprintTigervision\<close> stops at \<open>len(b)-1\<close>: \<open>Cartridge.fingerprint\<close> panics with an
  index out of range and no mapper is chosen.
\<close>

theorem tigervision_image_panics:
  "length ([0x85, 0x3f, 0x85, 0x3f, 0x85, 0x3f, 0x85, 0x3f, 0x85, 0x3f] @ replicate 8181 (0::uint8) @ [0x85]) = 8192 \<and>
   fingerprintHarmony ([0x85, 0x3f, 0x85, 0x3f, 0x85, 0x3f, 0x85, 0x3f, 0x85, 0x3f] @ replicate 8181 0 @ [0x85]) = Inr False \<and>
   \<not> fingerprintSuperchargerFastLoad ([0x85, 0x3f, 0x85, 0x3f, 0x85, 0x3f, 0x85, 0x3f, 0x85, 0x3f] @ replicate 8181 0 @ [0x85]) \<and>
   fingerprint3ePlus ([0x85, 0x3f, 0x85, 0x3f, 0x85, 0x3f, 0x85, 0x3f, 0x85, 0x3f] @ replicate 8181 0 @ [0x85]) = Inl IndexOutOfRange \<and>
   occurrences 0x85 0x3e ([0x85, 0x3f, 0x85, 0x3f, 0x85, 0x3f, 0x85, 0x3f, 0x85, 0x3f] @ replicate 8181 0 @ [0x85]) = 0 \<and>
   5 \<le> occurrences 0x85 0x3f ([0x85, 0x3f, 0x85, 0x3f, 0x85, 0x3f, 0x85, 0x3f, 0x85, 0x3f] @ replicate 8181 0 @ [0x85]) \<and>
   fingerprintTigervision ([0x85, 0x3f, 0x85, 0x3f, 0x85, 0x3f, 0x85, 0x3f, 0x85, 0x3f] @ replicate 8181 0 @ [0x85]) = Inr True \<and>
   fingerprint ([0x85, 0x3f, 0x85, 0x3f, 0x85, 0x3f, 0x85, 0x3f, 0x85, 0x3f] @ replicate 8181 0 @ [0x85])
     = Inl IndexOutOfRange"
proof -
  let ?b = "[0x85, 0x3f, 0x85, 0x3f, 0x85, 0x3f, 0x85, 0x3f, 0x85, 0x3f] @ replicate 8181 (0::uint8) @ [0x85]"
  have len: "length ?b = 8192" by simp
  have h: "fingerprintHarmony ?b = Inr False"
    by (rule harmony_at_32) (simp_all add: nth_append)
  have s: "\<not> fingerprintSuperchargerFastLoad ?b"
    by (simp add: fingerprintSuperchargerFastLoad_def)
  have "0x3e \<notin> set ?b" by simp
  then have o: "occurrences 0x85 0x3e ?b = 0" by (rule occurrences_absent)
  have "?b \<noteq> [] \<and> last ?b = 0x85" by simp
  with o have t: "fingerprint3ePlus ?b = Inl IndexOutOfRange"
    using fingerprint3ePlus_nonmatch [of ?b] by simp
  have u: "[0..<9] = [0, 1, 2, 3, 4, 5, 6, 7, 8]" by (simp add: upt_rec)
  have "length (filter (\<lambda>i. ?b ! i = 0x85 \<and> ?b ! (i + 1) = 0x3f) [0..<9]) \<le> occurrences 0x85 0x3f ?b"
    by (rule occurrences_prefix) simp
  then have c: "5 \<le> occurrences 0x85 0x3f ?b"
    by (simp add: u)
  from c have tv: "fingerprintTigervision ?b = Inr True"
    by (simp only: fingerprintTigervision_correct)
  from h s t have f: "fingerprint ?b = Inl IndexOutOfRange"
    by (simp add: fingerprint_def)
  from len h s t o c tv f show ?thesis by (simp only:) simp
qed

section \<open>Hand controller\<close>

subsection \<open>Rounding and scaling\<close>

lemma bits_pos: "0 < bits n \<longleftrightarrow> 0 < n"
  by (subst bits.simps) simp

lemma bits_double: "0 < n \<Longrightarrow> bits (2 * n) = Suc (bits n)"
  by (subst bits.simps) simp

lemma bits_shift: "0 < n \<Longrightarrow> bits (n * 2 ^ j) = bits n + j"
proof (induction j)
  case 0
  then show ?case by simp
next
  case (Suc j)
  then have "0 < n * 2 ^ j" by simp
  from bits_double [OF this] Suc show ?case
    by (simp add: mult.commute mult.left_commute)
qed

lemma bits_ge: "2 ^ m \<le> n \<Longrightarrow> m < bits n"
proof (induction m arbitrary: n)
  case 0
  then show ?case using bits_pos [of n] by simp
next
  case (Suc m)
  then have "2 ^ m \<le> n div 2" by simp
  moreover have "(0::int) < 2 ^ Suc m" by simp
  with Suc.prems have "0 < n" by linarith
  ultimately show ?case
    using Suc.IH [of "n div 2"] by (subst bits.simps) simp
qed

lemma round24_shift:
  assumes "24 \<le> bits n"
  shows "round24 (n * 2 ^ j) = round24 n * 2 ^ j"
proof -
  from assms have n: "0 < n" using bits_pos [of n] by simp
  define k where "k = bits n - 24"
  have kj: "bits (n * 2 ^ j) - 24 = k + j"
    using assms by (simp add: bits_shift [OF n] k_def)
  show ?thesis
  proof (cases "k = 0")
    case True
    then have r: "round24 n = n" by (simp add: round24_def k_def)
    show ?thesis
    proof (cases "j = 0")
      case True
      then show ?thesis by simp
    next
      case False
      have "(0::int) < 2 ^ (j - 1)" by simp
      then show ?thesis
        using False True kj r by (simp add: round24_def Let_def)
    qed
  next
    case False
    have q: "n * 2 ^ j div 2 ^ (k + j) = n div 2 ^ k"
      by (simp add: power_add)
    have m: "n * 2 ^ j mod 2 ^ (k + j) = (n mod 2 ^ k) * 2 ^ j"
      by (simp add: power_add)
    have h: "(2::int) ^ (k + j - 1) = 2 ^ (k - 1) * 2 ^ j"
      using False by (simp flip: power_add)
    have "round24 (n * 2 ^ j) =
            (if n * 2 ^ j mod 2 ^ (k + j) > 2 ^ (k + j - 1) \<or>
                (n * 2 ^ j mod 2 ^ (k + j) = 2 ^ (k + j - 1) \<and> odd (n * 2 ^ j div 2 ^ (k + j)))
             then n * 2 ^ j div 2 ^ (k + j) + 1 else n * 2 ^ j div 2 ^ (k + j)) * 2 ^ (k + j)"
      using False kj by (simp add: round24_def Let_def)
    also have "\<dots> = (if n mod 2 ^ k > 2 ^ (k - 1) \<or> (n mod 2 ^ k = 2 ^ (k - 1) \<and> odd (n div 2 ^ k))
             then n div 2 ^ k + 1 else n div 2 ^ k) * 2 ^ k * 2 ^ j"
      unfolding q m h by (simp add: power_add)
    also have "\<dots> = round24 n * 2 ^ j"
      using False by (simp add: round24_def Let_def k_def)
    finally show ?thesis .
  qed
qed

lemma round24_nonneg: "0 \<le> n \<Longrightarrow> 0 \<le> round24 n"
  by (simp add: round24_def Let_def pos_imp_zdiv_nonneg_iff)

lemma f32_add_sensitivity:
  assumes "0 \<le> a"
  shows "f32_add (a * 2 ^ 119) paddleSensitivity = round24 (a + 10737418) * 2 ^ 119"
proof -
  have "(2::int) ^ 23 \<le> a + 10737418" using assms by simp
  then have "23 < bits (a + 10737418)" by (rule bits_ge)
  then have b: "24 \<le> bits (a + 10737418)" by simp
  have "a * 2 ^ 119 + paddleSensitivity = (a + 10737418) * 2 ^ 119"
    by (simp add: paddleSensitivity_def algebra_simps)
  moreover have "\<not> (a + 10737418) * 2 ^ 119 < 0" using assms by simp
  ultimately show ?thesis
    using round24_shift [OF b, of 119] by (simp add: f32_add_def f32_round_def)
qed

lemma f32_one_minus_half: "f32_sub f32_one f32_half = f32_half"
proof -
  have "(2::int) ^ 23 \<le> 2 ^ 23" by simp
  then have "23 < bits (2 ^ 23)" by (rule bits_ge)
  then have b: "24 \<le> bits (2 ^ 23)" by simp
  have "bits (2 ^ 23) - 24 = 0"
    by (simp add: bits.simps)
  then have r: "round24 (2 ^ 23) = 2 ^ 23" 
    unfolding round24_def Let_def by (rule if_P)
  have "f32_sub f32_one f32_half = round24 (2 ^ 23 * 2 ^ 125)"
    by (simp add: f32_sub_def f32_one_def f32_half_def f32_round_def)
  also have "\<dots> = 2 ^ 23 * 2 ^ 125"
    unfolding round24_shift [OF b, of 125] r ..
  finally show ?thesis by (simp add: f32_half_def)
qed

subsection \<open>Evaluating the accumulator\<close>

lemma accumulate_numeral:
  "accumulate (numeral k) a = accumulate (pred_numeral k) (round24 (a + 10737418))"
  by (simp add: numeral_eq_Suc)

lemma quiet_numeral:
  "quiet (numeral k) a =
     (round24 (a + 10737418) < 2 ^ 29 \<and> quiet (pred_numeral k) (round24 (a + 10737418)))"
  by (simp add: numeral_eq_Suc)

lemma round24_numeral:
  "round24 (numeral n) =
     (let k = bits (numeral n) - 24 in
      if k = 0 then numeral n
      else
        (let q = (numeral n :: int) div 2 ^ k; r = (numeral n :: int) mod 2 ^ k; h = 2 ^ (k - 1)
         in (if r > h \<or> (r = h \<and> odd q) then q + 1 else q) * 2 ^ k))"
  by (simp add: round24_def)

lemma bits_numeral: "bits (numeral n) = Suc (bits (numeral n div 2))"
  by (subst bits.simps) simp

lemma bits_0: "bits 0 = 0"
  by (subst bits.simps) simp

lemma bits_1: "bits 1 = Suc 0"
  by (subst bits.simps) (simp add: bits_0)

lemmas accumulator_eval =
  accumulate_numeral quiet_numeral round24_numeral bits_numeral bits_0 bits_1 Let_def

lemma accumulate_50: "accumulate 50 0 = 536870688"
  by (simp add: accumulator_eval)

lemma quiet_50: "quiet 50 0"
  by (simp add: accumulator_eval)

lemma round24_51: "round24 547608106 = 547608128"
  by (simp add: accumulator_eval)

lemma quiet_le: "quiet n a \<Longrightarrow> k \<le> n \<Longrightarrow> quiet k a"
proof (induction n arbitrary: k a)
  case 0
  then show ?case by simp
next
  case (Suc n)
  then show ?case by (cases k) auto
qed

lemma accumulate_nonneg: "0 \<le> a \<Longrightarrow> 0 \<le> accumulate n a"
  by (induction n arbitrary: a) (simp_all add: round24_nonneg)

subsection \<open>Recharging\<close>

lemma recharge_below:
  assumes "which hc = PaddleType" and "charge (paddle hc) < 255"
    and "resistance (paddle hc) = f32_half"
    and "ticks (paddle hc) = a * 2 ^ 119" and "0 \<le> a"
    and "round24 (a + 10737418) < 2 ^ 29"
  shows "recharge hc = hc\<lparr>paddle := (paddle hc)\<lparr>ticks := round24 (a + 10737418) * 2 ^ 119\<rparr>\<rparr>"
proof -
  have "round24 (a + 10737418) * 2 ^ 119 < (2 ^ 29 * 2 ^ 119 :: int)"
    using assms(6) by (simp only: mult_less_cancel_right) simp
  then have cmp: "\<not> resistance (paddle hc) \<le> round24 (a + 10737418) * 2 ^ 119"
    by (simp add: f32_half_def assms(3))
  have add: "f32_add (ticks (paddle hc)) paddleSensitivity = round24 (a + 10737418) * 2 ^ 119"
    by (simp only: assms(4) f32_add_sensitivity [OF assms(5)])
  show ?thesis
    using assms(1,2) cmp by (simp add: recharge_def Let_def add)
qed

lemma recharge_reached:
  assumes "which hc = PaddleType" and "charge (paddle hc) < 255"
    and "resistance (paddle hc) = f32_half"
    and "ticks (paddle hc) = a * 2 ^ 119" and "0 \<le> a"
    and "2 ^ 29 \<le> round24 (a + 10737418)"
  shows "recharge hc =
           hc\<lparr>paddle := (paddle hc)\<lparr>ticks := 0, charge := charge (paddle hc) + 1\<rparr>,
              mem_tia := InputDeviceWrite (mem_tia hc) (puckReg (paddle hc)) (charge (paddle hc) + 1) 0x00\<rparr>"
proof -
  have "(2 ^ 29 * 2 ^ 119 :: int) \<le> round24 (a + 10737418) * 2 ^ 119"
    using assms(6) by (simp only: mult_le_cancel_right) simp
  then have cmp: "resistance (paddle hc) \<le> round24 (a + 10737418) * 2 ^ 119"
    by (simp add: f32_half_def assms(3))
  have add: "f32_add (ticks (paddle hc)) paddleSensitivity = round24 (a + 10737418) * 2 ^ 119"
    by (simp only: assms(4) f32_add_sensitivity [OF assms(5)])
  show ?thesis
    using assms(1,2) cmp by (simp add: recharge_def Let_def add)
qed

lemma recharge_quiet:
  "which hc = PaddleType \<Longrightarrow> charge (paddle hc) < 255 \<Longrightarrow> resistance (paddle hc) = f32_half \<Longrightarrow>
   ticks (paddle hc) = a * 2 ^ 119 \<Longrightarrow> 0 \<le> a \<Longrightarrow> quiet n a \<Longrightarrow>
   (recharge ^^ n) hc = hc\<lparr>paddle := (paddle hc)\<lparr>ticks := accumulate n a * 2 ^ 119\<rparr>\<rparr>"
proof (induction n arbitrary: hc a)
  case 0
  then show ?case by simp
next
  case (Suc n)
  let ?a = "round24 (a + 10737418)"
  let ?hc = "hc\<lparr>paddle := (paddle hc)\<lparr>ticks := ?a * 2 ^ 119\<rparr>\<rparr>"
  from Suc.prems have below: "?a < 2 ^ 29" and q: "quiet n ?a" by simp_all
  have r: "recharge hc = ?hc"
    using Suc.prems(1-5) below by (rule recharge_below)
  have nn: "0 \<le> ?a" using Suc.prems(5) by (simp add: round24_nonneg)
  have "(recharge ^^ n) ?hc = ?hc\<lparr>paddle := (paddle ?hc)\<lparr>ticks := accumulate n ?a * 2 ^ 119\<rparr>\<rparr>"
    using Suc.prems(1-3) nn q by (intro Suc.IH) simp_all
  then show ?case
    by (simp add: funpow_swap1 r)
qed

text \<open>
  Claim C9. A hand controller in paddle mode, with the accumulator at 0, the resistance
  at 0.5 and the charge below 255, and with no grounding in between: the charge is the
  same after each of the first 50 calls of \<open>recharge\<close>, and the 51st call increments it
  by exactly 1. The additions are those of binary32 arithmetic with the sensitivity
  constant 0.01 rounded to binary32.
\<close>

theorem paddle_charge_51st_tick:
  assumes "which hc = PaddleType"
    and "ticks (paddle hc) = 0"
    and "resistance (paddle hc) = f32_half"
    and "charge (paddle hc) < 255"
  shows "(\<forall>n \<le> 50. charge (paddle ((recharge ^^ n) hc)) = charge (paddle hc)) \<and>
         unat (charge (paddle ((recharge ^^ 51) hc))) = unat (charge (paddle hc)) + 1"
proof
  show "\<forall>n \<le> 50. charge (paddle ((recharge ^^ n) hc)) = charge (paddle hc)"
  proof (intro allI impI)
    fix n :: nat assume "n \<le> 50"
    with quiet_50 have "quiet n 0" by (rule quiet_le)
    with assms have "(recharge ^^ n) hc = hc\<lparr>paddle := (paddle hc)\<lparr>ticks := accumulate n 0 * 2 ^ 119\<rparr>\<rparr>"
      by (intro recharge_quiet) simp_all
    then show "charge (paddle ((recharge ^^ n) hc)) = charge (paddle hc)" by simp
  qed
next
  let ?hc = "hc\<lparr>paddle := (paddle hc)\<lparr>ticks := 536870688 * 2 ^ 119\<rparr>\<rparr>"
  from assms quiet_50 have "(recharge ^^ 50) hc = hc\<lparr>paddle := (paddle hc)\<lparr>ticks := accumulate 50 0 * 2 ^ 119\<rparr>\<rparr>"
    by (intro recharge_quiet) simp_all
  then have f: "(recharge ^^ 50) hc = ?hc" by (simp only: accumulate_50)
  have "recharge ?hc =
           ?hc\<lparr>paddle := (paddle ?hc)\<lparr>ticks := 0, charge := charge (paddle ?hc) + 1\<rparr>,
              mem_tia := InputDeviceWrite (mem_tia ?hc) (puckReg (paddle ?hc)) (charge (paddle ?hc) + 1) 0x00\<rparr>"
    using assms by (intro recharge_reached [where a = 536870688]) (simp_all add: round24_51)
  moreover have "(recharge ^^ 51) hc = recharge ((recharge ^^ 50) hc)"
    by (simp add: numeral_eq_Suc)
  ultimately have "charge (paddle ((recharge ^^ 51) hc)) = charge (paddle hc) + 1"
    using f by simp
  moreover from assms(4) have "unat (charge (paddle hc) + 1) = unat (charge (paddle hc)) + 1"
    by (simp add: unat_word_ariths word_less_nat_alt)
  ultimately show "unat (charge (paddle ((recharge ^^ 51) hc))) = unat (charge (paddle hc)) + 1"
    by simp
qed

lemma paddleSensitivity_nearest:
  "2 ^ 23 \<le> (10737418::int) \<and> (10737418::int) < 2 ^ 24 \<and>
   \<bar>100 * paddleSensitivity - 2 ^ 149\<bar> * 2 < 100 * 2 ^ 119"
  by (simp add: paddleSensitivity_def)

theorem paddle_charge_51st_tick_witness:
  "which (snd (Handle (NewHandController0 (\<lambda>_. 0) (\<lambda>_. 0) False) PaddleSet (Float32Value f32_half)))
     = PaddleType \<and>
   charge (paddle ((recharge ^^ 50)
       (snd (Handle (NewHandController0 (\<lambda>_. 0) (\<lambda>_. 0) False) PaddleSet (Float32Value f32_half))))) = 0 \<and>
   unat (charge (paddle ((recharge ^^ 51)
       (snd (Handle (NewHandController0 (\<lambda>_. 0) (\<lambda>_. 0) False) PaddleSet (Float32Value f32_half)))))) = 1"
proof -
  let ?hc = "snd (Handle (NewHandController0 (\<lambda>_. 0) (\<lambda>_. 0) False) PaddleSet (Float32Value f32_half))"
  have w: "which ?hc = PaddleType"
    by (simp add: Handle_def NewHandController0_def record_event_def)
  have t: "ticks (paddle ?hc) = 0"
    by (simp add: Handle_def NewHandController0_def record_event_def)
  have r: "resistance (paddle ?hc) = f32_half"
    by (simp add: Handle_def NewHandController0_def record_event_def f32_one_minus_half)
  have c: "charge (paddle ?hc) = 0"
    by (simp add: Handle_def NewHandController0_def record_event_def)
  then have c': "charge (paddle ?hc) < 255" by simp
  from paddle_charge_51st_tick [OF w t r c']
  have "charge (paddle ((recharge ^^ 50) ?hc)) = charge (paddle ?hc)"
    and "unat (charge (paddle ((recharge ^^ 51) ?hc))) = unat (charge (paddle ?hc)) + 1"
    by simp_all
  with w c show ?thesis by simp
qed

text \<open>
  Claim C8 fails on the code at the rune '0' (0x30): it is a keypad character, and
  \<open>Handle\<close> answers it with the bad-input-event error instead of recording it. The
  list of accepted runes in the source starts at '1'. (\<open>KeyboardDown_code\<close> below shows
  that the code agrees with the claim on every other rune.)
\<close>

theorem keypad_zero_rejected:
  "keypad_rune 0x30 \<and>
   Handle hc KeyboardDown (RuneValue 0x30) =
     (Some (BadInputEventType KeyboardDown ''numeric rune or * or #''), hc\<lparr>which := KeyboardType\<rparr>)"
  by (simp add: keypad_rune_def Handle_def)

lemma keypad_rune_cases:
  "keypad_rune r \<longleftrightarrow>
     r = 0x30 \<or> r = 0x31 \<or> r = 0x32 \<or> r = 0x33 \<or> r = 0x34 \<or> r = 0x35 \<or> r = 0x36 \<or>
     r = 0x37 \<or> r = 0x38 \<or> r = 0x39 \<or> r = 0x2a \<or> r = 0x23"
proof -
  have "(0x30 \<le> r \<and> r \<le> 0x39) \<longleftrightarrow> unat r \<in> {48..57}"
    by (auto simp: word_le_nat_alt)
  also have "\<dots> \<longleftrightarrow> unat r \<in> {48, 49, 50, 51, 52, 53, 54, 55, 56, 57}"
    by (simp only: atLeastAtMost_iff insert_iff empty_iff) arith
  also have "\<dots> \<longleftrightarrow> r = 0x30 \<or> r = 0x31 \<or> r = 0x32 \<or> r = 0x33 \<or> r = 0x34 \<or> r = 0x35 \<or> r = 0x36 \<or>
     r = 0x37 \<or> r = 0x38 \<or> r = 0x39"
    by (auto simp: word_unat_eq_iff)
  finally show ?thesis by (auto simp: keypad_rune_def)
qed

lemma KeyboardDown_code:
  "Handle hc KeyboardDown (RuneValue r) =
     (if keypad_rune r \<and> r \<noteq> 0x30
      then record_event (hc\<lparr>which := KeyboardType, keyboard := (keyboard hc)\<lparr>keyboard_key := r\<rparr>\<rparr>)
             KeyboardDown (RuneValue r)
      else (Some (BadInputEventType KeyboardDown ''numeric rune or * or #''),
            hc\<lparr>which := KeyboardType\<rparr>))"
  by (auto simp: keypad_rune_cases Handle_def Let_def)

text \<open>
  Claim C7 fails on the code for a \<open>KeyboardDown\<close> event with an invalid rune:
  \<open>Handle\<close> sets the active controller type to the keyboard before it checks the rune,
  so a fresh joystick controller handed the rune 'a' (0x61) returns the error with its
  controller type changed. (\<open>Handle_error_keeps_state\<close> below shows that every other
  error of \<open>Handle\<close> itself leaves the controller and the chip memory as they were.)
\<close>

theorem invalid_rune_changes_controller_type:
  "which (NewHandController0 (\<lambda>_. 0) (\<lambda>_. 0) False) = JoystickType \<and>
   Handle (NewHandController0 (\<lambda>_. 0) (\<lambda>_. 0) False) KeyboardDown (RuneValue 0x61) =
     (Some (BadInputEventType KeyboardDown ''numeric rune or * or #''),
      (NewHandController0 (\<lambda>_. 0) (\<lambda>_. 0) False)\<lparr>which := KeyboardType\<rparr>)"
  by (simp add: Handle_def NewHandController0_def)

lemma Handle_error_keeps_state:
  assumes "Handle hc event v = (Some e, hc')"
    and "e \<noteq> BadInputEventType KeyboardDown ''numeric rune or * or #''"
    and "recorder hc = None"
  shows "hc' = hc"
  using assms
  by (cases event; cases v)
     (auto simp: Handle_def handle_axis_def record_event_def Let_def split: if_splits)


section \<open>TIA\<close>

subsection \<open>Slots\<close>




lemma Tick_payload: "event_payload (snd (Tick e)) = event_payload e"
  by (simp add: Tick_def)


lemma Tick_fires: "fst (Tick e) \<longleftrightarrow> remainingCycles e = 1"
  by (simp add: Tick_def)

lemma Schedule_resolved:
  "resolved e \<Longrightarrow> Schedule e n p = Inr \<lparr>remainingCycles = n + 1, event_payload = p, unresolved = True\<rparr>"
  by (simp add: Schedule_def resolved_def)

lemma resolved_or_pending: "slot_ok ps e \<Longrightarrow> resolved e \<or> (\<exists>r p. pending e r p \<and> p \<in> set ps)"
  by (auto simp: slot_ok_def pending_def)

subsection \<open>Payloads leave the slots alone\<close>

lemma run_payload_slots [simp]:
  "futureVblank (run_payload p s) = futureVblank s"
  "futureRsyncAlign (run_payload p s) = futureRsyncAlign s"
  "futureRsyncReset (run_payload p s) = futureRsyncReset s"
  "futureHmoveLatch (run_payload p s) = futureHmoveLatch s"
  "FutureHmove (run_payload p s) = FutureHmove s"
  "futureHsync (run_payload p s) = futureHsync s"
  by (simp_all add: run_payload_def newScanline_def split: payload.splits)

lemma tick_futureVblank_slots [simp]:
  "futureVblank (tick_futureVblank s) = snd (Tick (futureVblank s))"
  "futureRsyncAlign (tick_futureVblank s) = futureRsyncAlign s"
  "futureRsyncReset (tick_futureVblank s) = futureRsyncReset s"
  "futureHmoveLatch (tick_futureVblank s) = futureHmoveLatch s"
  "FutureHmove (tick_futureVblank s) = FutureHmove s"
  "futureHsync (tick_futureVblank s) = futureHsync s"
  by (simp_all add: tick_futureVblank_def split: prod.splits)

lemma tick_futureRsyncAlign_slots [simp]:
  "futureVblank (tick_futureRsyncAlign s) = futureVblank s"
  "futureRsyncAlign (tick_futureRsyncAlign s) = snd (Tick (futureRsyncAlign s))"
  "futureRsyncReset (tick_futureRsyncAlign s) = futureRsyncReset s"
  "futureHmoveLatch (tick_futureRsyncAlign s) = futureHmoveLatch s"
  "FutureHmove (tick_futureRsyncAlign s) = FutureHmove s"
  "futureHsync (tick_futureRsyncAlign s) = futureHsync s"
  by (simp_all add: tick_futureRsyncAlign_def split: prod.splits)

lemma tick_futureRsyncReset_slots [simp]:
  "futureVblank (tick_futureRsyncReset s) = futureVblank s"
  "futureRsyncAlign (tick_futureRsyncReset s) = futureRsyncAlign s"
  "futureRsyncReset (tick_futureRsyncReset s) = snd (Tick (futureRsyncReset s))"
  "futureHmoveLatch (tick_futureRsyncReset s) = futureHmoveLatch s"
  "FutureHmove (tick_futureRsyncReset s) = FutureHmove s"
  "futureHsync (tick_futureRsyncReset s) = futureHsync s"
  by (simp_all add: tick_futureRsyncReset_def split: prod.splits)

lemma tick_futureHmoveLatch_slots [simp]:
  "futureVblank (tick_futureHmoveLatch s) = futureVblank s"
  "futureRsyncAlign (tick_futureHmoveLatch s) = futureRsyncAlign s"
  "futureRsyncReset (tick_futureHmoveLatch s) = futureRsyncReset s"
  "futureHmoveLatch (tick_futureHmoveLatch s) = snd (Tick (futureHmoveLatch s))"
  "FutureHmove (tick_futureHmoveLatch s) = FutureHmove s"
  "futureHsync (tick_futureHmoveLatch s) = futureHsync s"
  by (simp_all add: tick_futureHmoveLatch_def split: prod.splits)

lemma tick_FutureHmove_slots [simp]:
  "futureVblank (tick_FutureHmove s) = futureVblank s"
  "futureRsyncAlign (tick_FutureHmove s) = futureRsyncAlign s"
  "futureRsyncReset (tick_FutureHmove s) = futureRsyncReset s"
  "futureHmoveLatch (tick_FutureHmove s) = futureHmoveLatch s"
  "FutureHmove (tick_FutureHmove s) = snd (Tick (FutureHmove s))"
  "futureHsync (tick_FutureHmove s) = futureHsync s"
  by (simp_all add: tick_FutureHmove_def split: prod.splits)

lemma tick_futureHsync_slots [simp]:
  "futureVblank (tick_futureHsync s) = futureVblank s"
  "futureRsyncAlign (tick_futureHsync s) = futureRsyncAlign s"
  "futureRsyncReset (tick_futureHsync s) = futureRsyncReset s"
  "futureHmoveLatch (tick_futureHsync s) = futureHmoveLatch s"
  "FutureHmove (tick_futureHsync s) = FutureHmove s"
  "futureHsync (tick_futureHsync s) = snd (Tick (futureHsync s))"
  by (simp_all add: tick_futureHsync_def split: prod.splits)

lemma tick_events_slots [simp]:
  "futureVblank (tick_events s) = snd (Tick (futureVblank s))"
  "futureRsyncAlign (tick_events s) = snd (Tick (futureRsyncAlign s))"
  "futureRsyncReset (tick_events s) = snd (Tick (futureRsyncReset s))"
  "futureHmoveLatch (tick_events s) = snd (Tick (futureHmoveLatch s))"
  "FutureHmove (tick_events s) = snd (Tick (FutureHmove s))"
  "futureHsync (tick_events s) = snd (Tick (futureHsync s))"
  by (simp_all add: tick_events_def)

subsection \<open>The other fields, tick by tick\<close>









subsection \<open>The decode of the hsync counter\<close>



subsection \<open>One color clock\<close>







subsection \<open>Register writes\<close>





subsection \<open>One call of Step\<close>









subsection \<open>Along a scan line\<close>







subsection \<open>One call of Step on a scan line\<close>









subsection \<open>Runs of video cycles\<close>


lemma Steps_length: "Steps ins s = Inr (rs, t) \<Longrightarrow> length rs = length ins"
  by (induction ins arbitrary: s rs) (auto split: sum.splits)

lemma TIA_after_Nil [simp]: "TIA_after [] s = Some s"
  by (simp add: TIA_after_def)













subsection \<open>A scan line restarted by RSYNC\<close>





subsection \<open>CPU cycles while the CPU is halted\<close>










subsection \<open>WSYNC while an RSYNC is under way\<close>










subsection \<open>The events of the hsync decodes, in every state\<close>














subsection \<open>HBLANK along a scan line\<close>






subsection \<open>Runs from NewTIA\<close>









end
